theory Spec2Isabelle
  imports Main "HOL-Library.AList"
begin

section \<open>JavaScript values and objects\<close>

text \<open>
  The field values that occur in frame records and in the host's direction table.
  Numbers are the integers the engine itself produces (frame counters, key codes).
\<close>

datatype jsval = Undefined | Null | Bool bool | Num int | Str string

text \<open>JavaScript truthiness, as used by \<open>if (state.left)\<close> and \<open>!!tb[0]\<close>.\<close>

fun truthy :: "jsval \<Rightarrow> bool" where
  "truthy Undefined = False"
| "truthy Null = False"
| "truthy (Bool b) = b"
| "truthy (Num n) = (n \<noteq> 0)"
| "truthy (Str s) = (s \<noteq> [])"

text \<open>
  An object is its list of own properties in enumeration order; a frame record is such an
  object and a sequence is an array of them.
\<close>

type_synonym jsobject = "(string \<times> jsval) list"

definition getProp :: "jsobject \<Rightarrow> string \<Rightarrow> jsval" where
  "getProp obj k = (case map_of obj k of None \<Rightarrow> Undefined | Some v \<Rightarrow> v)"

section \<open>Host objects and the module state (direct-state module, part\_000)\<close>

text \<open>
  The keyboard handler (\<open>Ih\<close>): \<open>Ob\<close> is the object mapping a key code to its
  pressed state (a key code the object does not have maps to \<open>None\<close>),
  \<open>Ea\<close> maps a direction to the key codes bound to it. A direction without an
  entry in \<open>Ea\<close> (or an absent \<open>Ea\<close>) is a missing key of the list.
\<close>

record keyboard_handler =
  Ob :: "nat \<rightharpoonup> bool"
  Ea :: "(nat \<times> nat list) list"

text \<open>The input manager (\<open>Kh\<close>): \<open>tb\<close> is the sparse direction table, \<open>ha\<close> the raw vector.\<close>

record input_manager =
  tb :: "(nat \<times> jsval) list"
  ha :: "(int \<times> int) option"

text \<open>
  The module's fields. \<open>_recording\<close> is held by value. \<open>hostTickAvailable\<close> tells
  whether the game's tick entry point (\<open>Vv.prototype.tick\<close>) exists.
\<close>

record tas =
  inputManager :: "input_manager option"
  keyboardHandler :: "keyboard_handler option"
  recording :: "jsobject list"
  isRecording :: bool
  isPlaying :: bool
  playbackIndex :: nat
  frameCount :: nat
  tickHooked :: bool
  hostTickAvailable :: bool

subsection \<open>Direct input simulation\<close>

definition pressKey :: "nat \<Rightarrow> tas \<Rightarrow> tas" where
  "pressKey keyCode s =
     (case keyboardHandler s of
        None \<Rightarrow> s
      | Some kh \<Rightarrow> s\<lparr>keyboardHandler := Some (kh\<lparr>Ob := (Ob kh)(keyCode \<mapsto> True)\<rparr>)\<rparr>)"

definition releaseKey :: "nat \<Rightarrow> tas \<Rightarrow> tas" where
  "releaseKey keyCode s =
     (case keyboardHandler s of
        None \<Rightarrow> s
      | Some kh \<Rightarrow> s\<lparr>keyboardHandler := Some (kh\<lparr>Ob := (Ob kh)(keyCode \<mapsto> False)\<rparr>)\<rparr>)"

definition releaseAllKeys :: "tas \<Rightarrow> tas" where
  "releaseAllKeys s =
     (case keyboardHandler s of
        None \<Rightarrow> s
      | Some kh \<Rightarrow> s\<lparr>keyboardHandler := Some (kh\<lparr>Ob := (\<lambda>key. map_option (\<lambda>_. False) (Ob kh key))\<rparr>)\<rparr>)"

definition fallbackKeys :: "(nat \<times> nat) list" where
  "fallbackKeys = [(0, 37), (1, 39), (2, 38), (3, 40), (4, 32), (5, 8)]"

definition pressDirection :: "nat \<Rightarrow> tas \<Rightarrow> tas" where
  "pressDirection direction s =
     (case keyboardHandler s of
        None \<Rightarrow> s
      | Some kh \<Rightarrow>
          (case map_of (Ea kh) direction of
             Some (keyCode # _) \<Rightarrow> pressKey keyCode s
           | _ \<Rightarrow> (case map_of fallbackKeys direction of
                     Some keyCode \<Rightarrow> pressKey keyCode s
                   | None \<Rightarrow> s)))"

definition DIRECTION_LEFT :: nat where "DIRECTION_LEFT = 0"
definition DIRECTION_RIGHT :: nat where "DIRECTION_RIGHT = 1"
definition DIRECTION_UP :: nat where "DIRECTION_UP = 2"
definition DIRECTION_DOWN :: nat where "DIRECTION_DOWN = 3"
definition DIRECTION_ACTION :: nat where "DIRECTION_ACTION = 4"
definition DIRECTION_CANCEL :: nat where "DIRECTION_CANCEL = 5"

definition TAS_left :: "tas \<Rightarrow> tas" where "TAS_left = pressDirection DIRECTION_LEFT"
definition TAS_right :: "tas \<Rightarrow> tas" where "TAS_right = pressDirection DIRECTION_RIGHT"
definition TAS_up :: "tas \<Rightarrow> tas" where "TAS_up = pressDirection DIRECTION_UP"
definition TAS_down :: "tas \<Rightarrow> tas" where "TAS_down = pressDirection DIRECTION_DOWN"
definition TAS_action :: "tas \<Rightarrow> tas" where "TAS_action = pressKey 13"
definition TAS_cancel :: "tas \<Rightarrow> tas" where "TAS_cancel = pressDirection DIRECTION_CANCEL"

subsection \<open>Input state\<close>

record input_state =
  left :: bool
  right :: bool
  up :: bool
  down :: bool
  action :: bool
  cancel :: bool
  vector :: "(int \<times> int) option"

definition tbFlag :: "input_manager \<Rightarrow> nat \<Rightarrow> bool" where
  "tbFlag im d = (case map_of (tb im) d of None \<Rightarrow> False | Some v \<Rightarrow> truthy v)"

definition getInputState :: "tas \<Rightarrow> input_state option" where
  "getInputState s =
     (case inputManager s of
        None \<Rightarrow> None
      | Some im \<Rightarrow>
          Some \<lparr>left = tbFlag im 0, right = tbFlag im 1, up = tbFlag im 2,
                down = tbFlag im 3, action = tbFlag im 4, cancel = tbFlag im 5,
                vector = ha im\<rparr>)"

definition setInputState :: "jsobject \<Rightarrow> tas \<Rightarrow> tas" where
  "setInputState state s =
     (let s0 = releaseAllKeys s;
          s1 = (if truthy (getProp state ''left'') then TAS_left s0 else s0);
          s2 = (if truthy (getProp state ''right'') then TAS_right s1 else s1);
          s3 = (if truthy (getProp state ''up'') then TAS_up s2 else s2);
          s4 = (if truthy (getProp state ''down'') then TAS_down s3 else s3);
          s5 = (if truthy (getProp state ''action'') then TAS_action s4 else s4)
      in (if truthy (getProp state ''cancel'') then TAS_cancel s5 else s5))"

subsection \<open>Recording and playback\<close>

definition hookGameTick :: "tas \<Rightarrow> tas" where
  "hookGameTick s =
     (if tickHooked s then s
      else if hostTickAvailable s then s\<lparr>tickHooked := True\<rparr>
      else s)"

definition startRecording :: "tas \<Rightarrow> tas" where
  "startRecording s =
     (let s1 = s\<lparr>recording := [], isRecording := True, frameCount := 0\<rparr>
      in if \<not> tickHooked s1 then hookGameTick s1 else s1)"

definition stopRecording :: "tas \<Rightarrow> jsobject list \<times> tas" where
  "stopRecording s = (recording s, s\<lparr>isRecording := False\<rparr>)"

definition recordFrame :: "tas \<Rightarrow> tas" where
  "recordFrame s =
     (if \<not> isRecording s then s
      else
        (let s1 = (case getInputState s of
                     None \<Rightarrow> s
                   | Some state \<Rightarrow>
                       s\<lparr>recording := recording s @
                         [[(''frame'', Num (int (frameCount s))),
                           (''left'', Bool (left state)),
                           (''right'', Bool (right state)),
                           (''up'', Bool (up state)),
                           (''down'', Bool (down state)),
                           (''action'', Bool (action state)),
                           (''cancel'', Bool (cancel state)),
                           (''hasInput'', Bool (left state \<or> right state \<or> up state \<or>
                              down state \<or> action state \<or> cancel state))]]\<rparr>)
         in s1\<lparr>frameCount := frameCount s1 + 1\<rparr>))"

datatype seq_arg = NoArg | ArrayArg "jsobject list" | StringArg string

text \<open>What an operation reports on the console (or returns) besides changing the state.\<close>

datatype report = PlaybackStarted | ParseFailed | NoSequenceToPlay

text \<open>
  \<open>JSON.parse\<close> and \<open>JSON.stringify\<close> belong to the platform; the operations take
  them as parameters. For a text, \<open>JSON.parse\<close> throws, or returns an array of objects
  (a sequence), or returns a value that is not an array: a scalar or an object. A text
  whose value is an array with an element that is not an object, or holds a nested value
  or a number that is not an integer, has no value in this model.
\<close>

datatype nonarray = Scalar jsval | Object jsobject

datatype parse_result = Throws | ReturnsFrames "jsobject list" | ReturnsNonArray nonarray

type_synonym json_parse = "string \<Rightarrow> parse_result"
type_synonym json_stringify = "jsobject list \<Rightarrow> string"

text \<open>Reading \<open>.length\<close> of \<open>null\<close> or \<open>undefined\<close> throws a TypeError.\<close>

fun lengthThrows :: "nonarray \<Rightarrow> bool" where
  "lengthThrows (Scalar Null) = True"
| "lengthThrows (Scalar Undefined) = True"
| "lengthThrows v = False"

text \<open>
  The operations are defined on sessions whose \<open>_recording\<close> is an array of
  objects. \<open>importRecording\<close> can leave that domain: \<open>NonArray v s\<close> is the session
  \<open>s\<close> with \<open>_recording\<close> now holding the value \<open>v\<close>, which is not an array.
\<close>

datatype 'a session = Intact 'a | NonArray nonarray 'a

definition startPlayback :: "json_parse \<Rightarrow> seq_arg \<Rightarrow> tas \<Rightarrow> report \<times> tas" where
  "startPlayback parse arg s =
     (case (case arg of
              NoArg \<Rightarrow> ReturnsFrames (recording s)
            | ArrayArg xs \<Rightarrow> ReturnsFrames xs
            | StringArg text \<Rightarrow> parse text) of
        Throws \<Rightarrow> (ParseFailed, s)
      | parsed \<Rightarrow>
          (let s1 = (case parsed of
                       ReturnsFrames sequence \<Rightarrow>
                         if length sequence > 0 then s\<lparr>recording := sequence\<rparr> else s
                     | _ \<Rightarrow> s)
           in if length (recording s1) = 0 then (NoSequenceToPlay, s1)
              else
                (let s2 = (if \<not> tickHooked s1 then hookGameTick s1 else s1)
                 in (PlaybackStarted,
                     s2\<lparr>playbackIndex := 0, isPlaying := True, isRecording := False\<rparr>))))"

definition stopPlayback :: "tas \<Rightarrow> tas" where
  "stopPlayback s = releaseAllKeys (s\<lparr>isPlaying := False, playbackIndex := 0\<rparr>)"

definition playbackFrame :: "tas \<Rightarrow> bool \<times> tas" where
  "playbackFrame s =
     (if \<not> isPlaying s then (False, s)
      else if playbackIndex s \<ge> length (recording s) then (False, stopPlayback s)
      else
        (let state = recording s ! playbackIndex s;
             s1 = setInputState state s
         in (True, s1\<lparr>playbackIndex := playbackIndex s1 + 1\<rparr>)))"

definition getRecording :: "tas \<Rightarrow> jsobject list" where
  "getRecording s = recording s"

definition exportRecording :: "json_stringify \<Rightarrow> tas \<Rightarrow> string" where
  "exportRecording stringify s = stringify (recording s)"

definition importRecording :: "json_parse \<Rightarrow> seq_arg \<Rightarrow> tas \<Rightarrow> bool \<times> tas session" where
  "importRecording parse data s =
     (case data of
        ArrayArg xs \<Rightarrow> (True, Intact (s\<lparr>recording := xs\<rparr>))
      | StringArg text \<Rightarrow>
          (case parse text of
             Throws \<Rightarrow> (False, Intact s)
           | ReturnsFrames xs \<Rightarrow> (True, Intact (s\<lparr>recording := xs\<rparr>))
           | ReturnsNonArray v \<Rightarrow> (\<not> lengthThrows v, NonArray v s))
      | NoArg \<Rightarrow> (False, Intact s))"

subsection \<open>The hooked game tick\<close>

text \<open>
  The wrapper installed by \<open>_hookGameTick\<close> first runs the game's own tick, which may
  rewrite the contents of the host objects, then records, then plays.
\<close>

type_synonym host_tick =
  "(input_manager \<Rightarrow> input_manager) \<times> (keyboard_handler \<Rightarrow> keyboard_handler)"

definition originalTick :: "host_tick \<Rightarrow> tas \<Rightarrow> tas" where
  "originalTick h s =
     s\<lparr>inputManager := map_option (fst h) (inputManager s),
       keyboardHandler := map_option (snd h) (keyboardHandler s)\<rparr>"

definition hookedTick :: "host_tick \<Rightarrow> tas \<Rightarrow> tas" where
  "hookedTick h s =
     (let s1 = originalTick h s;
          s2 = (if isRecording s1 then recordFrame s1 else s1)
      in if isPlaying s2 then snd (playbackFrame s2) else s2)"

fun ticks :: "host_tick list \<Rightarrow> tas \<Rightarrow> tas" where
  "ticks [] s = s"
| "ticks (h # hs) s = ticks hs (hookedTick h s)"

section \<open>The event-dispatch module (tas.js, first module)\<close>

text \<open>
  This module presses and releases keys by dispatching native keyboard events on the
  document. The model keeps the events dispatched so far, oldest first; the host's
  listener is outside the repository.
\<close>

datatype key_event = KeyDown nat | KeyUp nat

record tas_ev =
  inputManager_ev :: "input_manager option"
  recording_ev :: "jsobject list"
  isRecording_ev :: bool
  isPlaying_ev :: bool
  playbackIndex_ev :: nat
  frameCount_ev :: nat
  tickHooked_ev :: bool
  hostTickAvailable_ev :: bool
  dispatched :: "key_event list"

definition KEYS_LEFT :: nat where "KEYS_LEFT = 37"
definition KEYS_RIGHT :: nat where "KEYS_RIGHT = 39"
definition KEYS_UP :: nat where "KEYS_UP = 38"
definition KEYS_DOWN :: nat where "KEYS_DOWN = 40"
definition KEYS_SPACE :: nat where "KEYS_SPACE = 32"
definition KEYS_ENTER :: nat where "KEYS_ENTER = 13"
definition KEYS_BACKSPACE :: nat where "KEYS_BACKSPACE = 8"

text \<open>The values of \<open>KEYS\<close> in the order \<open>Object.keys\<close> enumerates them.\<close>

definition KEYS :: "nat list" where
  "KEYS = [KEYS_LEFT, KEYS_RIGHT, KEYS_UP, KEYS_DOWN, KEYS_SPACE, KEYS_ENTER, KEYS_BACKSPACE]"

definition pressKey_ev :: "nat \<Rightarrow> tas_ev \<Rightarrow> tas_ev" where
  "pressKey_ev keyCode s = s\<lparr>dispatched := dispatched s @ [KeyDown keyCode]\<rparr>"

definition releaseKey_ev :: "nat \<Rightarrow> tas_ev \<Rightarrow> tas_ev" where
  "releaseKey_ev keyCode s = s\<lparr>dispatched := dispatched s @ [KeyUp keyCode]\<rparr>"

definition releaseAllKeys_ev :: "tas_ev \<Rightarrow> tas_ev" where
  "releaseAllKeys_ev s = fold releaseKey_ev KEYS s"

record input_state_ev =
  left_ev :: bool
  right_ev :: bool
  up_ev :: bool
  down_ev :: bool
  action_ev :: bool
  cancel_ev :: bool

definition getInputState_ev :: "tas_ev \<Rightarrow> input_state_ev option" where
  "getInputState_ev s =
     (case inputManager_ev s of
        None \<Rightarrow> None
      | Some im \<Rightarrow>
          Some \<lparr>left_ev = tbFlag im 0, right_ev = tbFlag im 1, up_ev = tbFlag im 2,
                down_ev = tbFlag im 3, action_ev = tbFlag im 4, cancel_ev = tbFlag im 5\<rparr>)"

definition setInputState_ev :: "jsobject \<Rightarrow> tas_ev \<Rightarrow> tas_ev" where
  "setInputState_ev state s =
     (let s0 = releaseAllKeys_ev s;
          s1 = (if truthy (getProp state ''left'') then pressKey_ev KEYS_LEFT s0 else s0);
          s2 = (if truthy (getProp state ''right'') then pressKey_ev KEYS_RIGHT s1 else s1);
          s3 = (if truthy (getProp state ''up'') then pressKey_ev KEYS_UP s2 else s2);
          s4 = (if truthy (getProp state ''down'') then pressKey_ev KEYS_DOWN s3 else s3);
          s5 = (if truthy (getProp state ''action'') then pressKey_ev KEYS_ENTER s4 else s4)
      in (if truthy (getProp state ''cancel'') then pressKey_ev KEYS_BACKSPACE s5 else s5))"

definition hookGameTick_ev :: "tas_ev \<Rightarrow> tas_ev" where
  "hookGameTick_ev s =
     (if tickHooked_ev s then s
      else if hostTickAvailable_ev s then s\<lparr>tickHooked_ev := True\<rparr>
      else s)"

definition startRecording_ev :: "tas_ev \<Rightarrow> tas_ev" where
  "startRecording_ev s =
     (let s1 = s\<lparr>recording_ev := [], isRecording_ev := True, frameCount_ev := 0\<rparr>
      in if \<not> tickHooked_ev s1 then hookGameTick_ev s1 else s1)"

definition stopRecording_ev :: "tas_ev \<Rightarrow> jsobject list \<times> tas_ev" where
  "stopRecording_ev s = (recording_ev s, s\<lparr>isRecording_ev := False\<rparr>)"

definition recordFrame_ev :: "tas_ev \<Rightarrow> tas_ev" where
  "recordFrame_ev s =
     (if \<not> isRecording_ev s then s
      else
        (let s1 = (case getInputState_ev s of
                     None \<Rightarrow> s
                   | Some state \<Rightarrow>
                       s\<lparr>recording_ev := recording_ev s @
                         [[(''frame'', Num (int (frameCount_ev s))),
                           (''left'', Bool (left_ev state)),
                           (''right'', Bool (right_ev state)),
                           (''up'', Bool (up_ev state)),
                           (''down'', Bool (down_ev state)),
                           (''action'', Bool (action_ev state)),
                           (''cancel'', Bool (cancel_ev state))]]\<rparr>)
         in s1\<lparr>frameCount_ev := frameCount_ev s1 + 1\<rparr>))"

definition startPlayback_ev :: "json_parse \<Rightarrow> seq_arg \<Rightarrow> tas_ev \<Rightarrow> report \<times> tas_ev" where
  "startPlayback_ev parse arg s =
     (case (case arg of
              NoArg \<Rightarrow> ReturnsFrames (recording_ev s)
            | ArrayArg xs \<Rightarrow> ReturnsFrames xs
            | StringArg text \<Rightarrow> parse text) of
        Throws \<Rightarrow> (ParseFailed, s)
      | parsed \<Rightarrow>
          (let s1 = (case parsed of
                       ReturnsFrames sequence \<Rightarrow>
                         if length sequence > 0 then s\<lparr>recording_ev := sequence\<rparr> else s
                     | _ \<Rightarrow> s)
           in if length (recording_ev s1) = 0 then (NoSequenceToPlay, s1)
              else
                (let s2 = (if \<not> tickHooked_ev s1 then hookGameTick_ev s1 else s1)
                 in (PlaybackStarted,
                     s2\<lparr>playbackIndex_ev := 0, isPlaying_ev := True,
                        isRecording_ev := False\<rparr>))))"

definition stopPlayback_ev :: "tas_ev \<Rightarrow> tas_ev" where
  "stopPlayback_ev s = releaseAllKeys_ev (s\<lparr>isPlaying_ev := False, playbackIndex_ev := 0\<rparr>)"

definition playbackFrame_ev :: "tas_ev \<Rightarrow> bool \<times> tas_ev" where
  "playbackFrame_ev s =
     (if \<not> isPlaying_ev s then (False, s)
      else if playbackIndex_ev s \<ge> length (recording_ev s) then (False, stopPlayback_ev s)
      else
        (let state = recording_ev s ! playbackIndex_ev s;
             s1 = setInputState_ev state s
         in (True, s1\<lparr>playbackIndex_ev := playbackIndex_ev s1 + 1\<rparr>)))"

definition getRecording_ev :: "tas_ev \<Rightarrow> jsobject list" where
  "getRecording_ev s = recording_ev s"

definition exportRecording_ev :: "json_stringify \<Rightarrow> tas_ev \<Rightarrow> string" where
  "exportRecording_ev stringify s = stringify (recording_ev s)"

definition importRecording_ev :: "json_parse \<Rightarrow> seq_arg \<Rightarrow> tas_ev \<Rightarrow> bool \<times> tas_ev session" where
  "importRecording_ev parse data s =
     (case data of
        ArrayArg xs \<Rightarrow> (True, Intact (s\<lparr>recording_ev := xs\<rparr>))
      | StringArg text \<Rightarrow>
          (case parse text of
             Throws \<Rightarrow> (False, Intact s)
           | ReturnsFrames xs \<Rightarrow> (True, Intact (s\<lparr>recording_ev := xs\<rparr>))
           | ReturnsNonArray v \<Rightarrow> (\<not> lengthThrows v, NonArray v s))
      | NoArg \<Rightarrow> (False, Intact s))"

text \<open>The game's own tick reaches this module only through the input manager it reads.\<close>

definition hookedTick_ev :: "(input_manager \<Rightarrow> input_manager) \<Rightarrow> tas_ev \<Rightarrow> tas_ev" where
  "hookedTick_ev h s =
     (let s1 = s\<lparr>inputManager_ev := map_option h (inputManager_ev s)\<rparr>;
          s2 = (if isRecording_ev s1 then recordFrame_ev s1 else s1)
      in if isPlaying_ev s2 then snd (playbackFrame_ev s2) else s2)"

fun ticks_ev :: "(input_manager \<Rightarrow> input_manager) list \<Rightarrow> tas_ev \<Rightarrow> tas_ev" where
  "ticks_ev [] s = s"
| "ticks_ev (h # hs) s = ticks_ev hs (hookedTick_ev h s)"

section \<open>The older direct-state module (tas.js, second module)\<close>

text \<open>
  Its state has the fields of \<^typ>\<open>tas\<close> (there is no tick hook, so \<open>tickHooked\<close>
  stays as it is). Its \<open>startRecording\<close> installs no hook, and its
  \<open>startPlayback\<close> takes an array only; a missing argument is falsy. Its
  \<open>getRecording\<close> and \<open>exportRecording\<close> are those of part\_000.
\<close>

definition startRecording_legacy :: "tas \<Rightarrow> tas" where
  "startRecording_legacy s = s\<lparr>recording := [], isRecording := True, frameCount := 0\<rparr>"

definition startPlayback_legacy :: "jsobject list option \<Rightarrow> tas \<Rightarrow> report \<times> tas" where
  "startPlayback_legacy sequence s =
     (case sequence of
        None \<Rightarrow> (NoSequenceToPlay, s)
      | Some xs \<Rightarrow>
          if length xs = 0 then (NoSequenceToPlay, s)
          else (PlaybackStarted, s\<lparr>recording := xs, playbackIndex := 0, isPlaying := True\<rparr>))"

section \<open>The sequence builder\<close>

text \<open>
  \<open>sequence()\<close> creates a closure holding the array \<open>seq\<close> and the counter
  \<open>currentFrame\<close>; the builder's methods push onto that array and \<open>build\<close>
  returns the array itself. The store holds the closures created so far; a builder, and
  the array reference \<open>build\<close> returns, is the address of its closure. The builder
  of part\_000 and that of the older module in tas.js are the same text.
\<close>

record closure =
  seq :: "jsobject list"
  currentFrame :: nat

type_synonym store = "closure list"

definition sequence :: "store \<Rightarrow> nat \<times> store" where
  "sequence st = (length st, st @ [\<lparr>seq = [], currentFrame = 0\<rparr>])"

text \<open>Reading an array through its reference.\<close>

definition deref :: "store \<Rightarrow> nat \<Rightarrow> jsobject list" where
  "deref st r = (if r < length st then seq (st ! r) else [])"

definition holdState :: "int \<Rightarrow> nat \<Rightarrow> jsobject" where
  "holdState direction frame =
     (let state = [(''frame'', Num (int frame)), (''left'', Bool False), (''right'', Bool False),
                   (''up'', Bool False), (''down'', Bool False), (''action'', Bool False),
                   (''cancel'', Bool False)];
          state = (if direction = int DIRECTION_LEFT
                   then AList.update ''left'' (Bool True) state else state);
          state = (if direction = int DIRECTION_RIGHT
                   then AList.update ''right'' (Bool True) state else state);
          state = (if direction = int DIRECTION_UP
                   then AList.update ''up'' (Bool True) state else state);
          state = (if direction = int DIRECTION_DOWN
                   then AList.update ''down'' (Bool True) state else state);
          state = (if direction = int DIRECTION_ACTION
                   then AList.update ''action'' (Bool True) state else state)
      in (if direction = int DIRECTION_CANCEL
          then AList.update ''cancel'' (Bool True) state else state))"

text \<open>The records one \<open>hold\<close> loop pushes: the given number, from the given frame on.\<close>

fun holdFrames :: "int \<Rightarrow> nat \<Rightarrow> nat \<Rightarrow> jsobject list" where
  "holdFrames direction 0 frame = []"
| "holdFrames direction (Suc n) frame =
     holdState direction frame # holdFrames direction n (Suc frame)"

definition hold :: "int \<Rightarrow> int \<Rightarrow> nat \<Rightarrow> store \<Rightarrow> store" where
  "hold direction frames b st =
     (if b < length st
      then st[b := \<lparr>seq = seq (st ! b) @ holdFrames direction (nat frames) (currentFrame (st ! b)),
                     currentFrame = currentFrame (st ! b) + nat frames\<rparr>]
      else st)"

definition waitState :: "nat \<Rightarrow> jsobject" where
  "waitState frame =
     [(''frame'', Num (int frame)), (''left'', Bool False), (''right'', Bool False),
      (''up'', Bool False), (''down'', Bool False), (''action'', Bool False),
      (''cancel'', Bool False)]"

fun waitFrames :: "nat \<Rightarrow> nat \<Rightarrow> jsobject list" where
  "waitFrames 0 frame = []"
| "waitFrames (Suc n) frame = waitState frame # waitFrames n (Suc frame)"

definition wait :: "int \<Rightarrow> nat \<Rightarrow> store \<Rightarrow> store" where
  "wait frames b st =
     (if b < length st
      then st[b := \<lparr>seq = seq (st ! b) @ waitFrames (nat frames) (currentFrame (st ! b)),
                     currentFrame = currentFrame (st ! b) + nat frames\<rparr>]
      else st)"

text \<open>\<open>frames || 1\<close>: a missing or zero count is one frame.\<close>

definition framesOrOne :: "int option \<Rightarrow> int" where
  "framesOrOne frames = (case frames of None \<Rightarrow> 1 | Some n \<Rightarrow> if n = 0 then 1 else n)"

definition builder_left :: "int option \<Rightarrow> nat \<Rightarrow> store \<Rightarrow> store" where
  "builder_left frames = hold (int DIRECTION_LEFT) (framesOrOne frames)"

definition builder_right :: "int option \<Rightarrow> nat \<Rightarrow> store \<Rightarrow> store" where
  "builder_right frames = hold (int DIRECTION_RIGHT) (framesOrOne frames)"

definition builder_up :: "int option \<Rightarrow> nat \<Rightarrow> store \<Rightarrow> store" where
  "builder_up frames = hold (int DIRECTION_UP) (framesOrOne frames)"

definition builder_down :: "int option \<Rightarrow> nat \<Rightarrow> store \<Rightarrow> store" where
  "builder_down frames = hold (int DIRECTION_DOWN) (framesOrOne frames)"

definition builder_action :: "int option \<Rightarrow> nat \<Rightarrow> store \<Rightarrow> store" where
  "builder_action frames = hold (int DIRECTION_ACTION) (framesOrOne frames)"

definition builder_cancel :: "int option \<Rightarrow> nat \<Rightarrow> store \<Rightarrow> store" where
  "builder_cancel frames = hold (int DIRECTION_CANCEL) (framesOrOne frames)"

definition build :: "nat \<Rightarrow> nat" where
  "build b = b"

text \<open>Calls on a builder, and running a list of them in order.\<close>

datatype builder_call =
  Hold int int | Wait int | CallLeft "int option" | CallRight "int option" | CallUp "int option"
  | CallDown "int option" | CallAction "int option" | CallCancel "int option"

fun call :: "builder_call \<Rightarrow> nat \<Rightarrow> store \<Rightarrow> store" where
  "call (Hold direction frames) b st = hold direction frames b st"
| "call (Wait frames) b st = wait frames b st"
| "call (CallLeft frames) b st = builder_left frames b st"
| "call (CallRight frames) b st = builder_right frames b st"
| "call (CallUp frames) b st = builder_up frames b st"
| "call (CallDown frames) b st = builder_down frames b st"
| "call (CallAction frames) b st = builder_action frames b st"
| "call (CallCancel frames) b st = builder_cancel frames b st"

fun calls :: "builder_call list \<Rightarrow> nat \<Rightarrow> store \<Rightarrow> store" where
  "calls [] b st = st"
| "calls (c # cs) b st = calls cs b (call c b st)"

text \<open>
  The records a call pushes when the counter stands at the given frame, how many they are,
  and the records a list of calls pushes in order.
\<close>

fun callFrames :: "builder_call \<Rightarrow> nat \<Rightarrow> jsobject list" where
  "callFrames (Hold direction frames) c = holdFrames direction (nat frames) c"
| "callFrames (Wait frames) c = waitFrames (nat frames) c"
| "callFrames (CallLeft frames) c = holdFrames (int DIRECTION_LEFT) (nat (framesOrOne frames)) c"
| "callFrames (CallRight frames) c = holdFrames (int DIRECTION_RIGHT) (nat (framesOrOne frames)) c"
| "callFrames (CallUp frames) c = holdFrames (int DIRECTION_UP) (nat (framesOrOne frames)) c"
| "callFrames (CallDown frames) c = holdFrames (int DIRECTION_DOWN) (nat (framesOrOne frames)) c"
| "callFrames (CallAction frames) c =
     holdFrames (int DIRECTION_ACTION) (nat (framesOrOne frames)) c"
| "callFrames (CallCancel frames) c =
     holdFrames (int DIRECTION_CANCEL) (nat (framesOrOne frames)) c"

fun callCount :: "builder_call \<Rightarrow> nat" where
  "callCount (Hold direction frames) = nat frames"
| "callCount (Wait frames) = nat frames"
| "callCount (CallLeft frames) = nat (framesOrOne frames)"
| "callCount (CallRight frames) = nat (framesOrOne frames)"
| "callCount (CallUp frames) = nat (framesOrOne frames)"
| "callCount (CallDown frames) = nat (framesOrOne frames)"
| "callCount (CallAction frames) = nat (framesOrOne frames)"
| "callCount (CallCancel frames) = nat (framesOrOne frames)"

fun callsFrames :: "builder_call list \<Rightarrow> nat \<Rightarrow> jsobject list" where
  "callsFrames [] c = []"
| "callsFrames (x # xs) c = callFrames x c @ callsFrames xs (c + callCount x)"

text \<open>A store with two builders, the first after \<open>left(2)\<close>.\<close>

definition twoBuilders :: store where
  "twoBuilders = calls [CallLeft (Some 2)] 0 (snd (sequence (snd (sequence []))))"

section \<open>Initial module state and observations\<close>

text \<open>
  The state both modules start with, before \<open>init\<close> has found the game; the game's
  tick entry point may already exist.
\<close>

definition initialTAS :: tas where
  "initialTAS = \<lparr>inputManager = None, keyboardHandler = None, recording = [],
     isRecording = False, isPlaying = False, playbackIndex = 0, frameCount = 0,
     tickHooked = False, hostTickAvailable = True\<rparr>"

definition initialTAS_ev :: tas_ev where
  "initialTAS_ev = \<lparr>inputManager_ev = None, recording_ev = [],
     isRecording_ev = False, isPlaying_ev = False, playbackIndex_ev = 0, frameCount_ev = 0,
     tickHooked_ev = False, hostTickAvailable_ev = True, dispatched = []\<rparr>"

text \<open>The \<open>frame\<close> field of a frame record.\<close>

definition frameField :: "jsobject \<Rightarrow> jsval" where
  "frameField f = getProp f ''frame''"

text \<open>Whether the bound keyboard handler holds a key code as pressed.\<close>

definition keyPressed :: "tas \<Rightarrow> nat \<Rightarrow> bool" where
  "keyPressed s keyCode =
     (case keyboardHandler s of
        None \<Rightarrow> False
      | Some kh \<Rightarrow> Ob kh keyCode = Some True)"

text \<open>A frame record as the recorder of the event-dispatch module writes it, holding left.\<close>

definition leftFrame :: jsobject where
  "leftFrame = [(''frame'', Num 0), (''left'', Bool True), (''right'', Bool False),
     (''up'', Bool False), (''down'', Bool False), (''action'', Bool False),
     (''cancel'', Bool False)]"

section \<open>The serialized sequence format\<close>

text \<open>
  \<open>JSON.stringify\<close> on an array of objects whose property values are the values of
  \<^typ>\<open>jsval\<close>: compact output, properties in enumeration order, a property whose value
  is \<open>undefined\<close> left out, integers in decimal. Strings hold ASCII characters.
\<close>

definition digitChar :: "nat \<Rightarrow> char" where
  "digitChar d = char_of (48 + d)"

fun showNat :: "nat \<Rightarrow> string" where
  "showNat n = (if n < 10 then [digitChar n] else showNat (n div 10) @ [digitChar (n mod 10)])"

declare showNat.simps [simp del]

definition showInt :: "int \<Rightarrow> string" where
  "showInt i = (if i < 0 then CHR ''-'' # showNat (nat (- i)) else showNat (nat i))"

definition hexChar :: "nat \<Rightarrow> char" where
  "hexChar d = (if d < 10 then char_of (48 + d) else char_of (87 + d))"

definition escapeChar :: "char \<Rightarrow> string" where
  "escapeChar c =
     (if c = CHR 0x22 then [CHR 0x5C, CHR 0x22]
      else if c = CHR 0x5C then [CHR 0x5C, CHR 0x5C]
      else if c = CHR 0x08 then [CHR 0x5C, CHR ''b'']
      else if c = CHR 0x0C then [CHR 0x5C, CHR ''f'']
      else if c = CHR 0x0A then [CHR 0x5C, CHR ''n'']
      else if c = CHR 0x0D then [CHR 0x5C, CHR ''r'']
      else if c = CHR 0x09 then [CHR 0x5C, CHR ''t'']
      else if (of_char c :: nat) < 32
        then [CHR 0x5C, CHR ''u'', CHR ''0'', CHR ''0'',
              hexChar (of_char c div 16), hexChar (of_char c mod 16)]
      else [c])"

definition quoteString :: "string \<Rightarrow> string" where
  "quoteString s = CHR 0x22 # concat (map escapeChar s) @ [CHR 0x22]"

fun stringifyValue :: "jsval \<Rightarrow> string option" where
  "stringifyValue Undefined = None"
| "stringifyValue Null = Some ''null''"
| "stringifyValue (Bool b) = Some (if b then ''true'' else ''false'')"
| "stringifyValue (Num n) = Some (showInt n)"
| "stringifyValue (Str s) = Some (quoteString s)"

fun joinWith :: "char \<Rightarrow> string list \<Rightarrow> string" where
  "joinWith c [] = []"
| "joinWith c [x] = x"
| "joinWith c (x # y # ys) = x @ c # joinWith c (y # ys)"

definition stringifyMembers :: "jsobject \<Rightarrow> string list" where
  "stringifyMembers obj =
     concat (map (\<lambda>(k, v). case stringifyValue v of
                               None \<Rightarrow> []
                             | Some text \<Rightarrow> [quoteString k @ CHR '':'' # text]) obj)"

definition stringifyObject :: "jsobject \<Rightarrow> string" where
  "stringifyObject obj = CHR ''{'' # joinWith CHR '','' (stringifyMembers obj) @ ''}''"

definition JSON_stringify :: "jsobject list \<Rightarrow> string" where
  "JSON_stringify xs = CHR ''['' # joinWith CHR '','' (map stringifyObject xs) @ '']''"

text \<open>
  What is known of \<open>JSON.parse\<close>, on three kinds of text. A text that is empty or
  whose first character can begin neither white space nor a JSON value makes it throw. A
  compact text (no white space) that is an array of objects, an object, a string without
  escapes, \<open>true\<close>, \<open>false\<close>, \<open>null\<close> or an integer, where object keys
  are written without escapes and are not array indices and member values are
  \<open>true\<close>, \<open>false\<close>, \<open>null\<close> or integers, has the value given. On any
  other text \<open>JSON_parse\<close> gives \<open>None\<close>: it says nothing.
\<close>

datatype token =
  TLBracket | TRBracket | TLBrace | TRBrace | TComma | TColon | TString string | TWord string

definition punct :: "char \<Rightarrow> token option" where
  "punct c =
     (if c = CHR ''['' then Some TLBracket
      else if c = CHR '']'' then Some TRBracket
      else if c = CHR ''{'' then Some TLBrace
      else if c = CHR ''}'' then Some TRBrace
      else if c = CHR '','' then Some TComma
      else if c = CHR '':'' then Some TColon
      else None)"

definition isDigit :: "char \<Rightarrow> bool" where
  "isDigit c = (48 \<le> (of_char c :: nat) \<and> (of_char c :: nat) \<le> 57)"

text \<open>Characters a key may be written with: no quote, no backslash, no control character.\<close>

definition plainChar :: "char \<Rightarrow> bool" where
  "plainChar c = (c \<noteq> CHR 0x22 \<and> c \<noteq> CHR 0x5C \<and> 32 \<le> (of_char c :: nat))"

definition flushWord :: "string \<Rightarrow> token list" where
  "flushWord w = (if w = [] then [] else [TWord w])"

datatype lexstate = Outside string | Inside string

fun lexer :: "lexstate \<Rightarrow> string \<Rightarrow> token list option" where
  "lexer (Outside w) [] = Some (flushWord w)"
| "lexer (Outside w) (c # cs) =
     (if c = CHR 0x22 then (if w = [] then lexer (Inside []) cs else None)
      else case punct c of
             Some t \<Rightarrow> map_option (\<lambda>ts. flushWord w @ t # ts) (lexer (Outside []) cs)
           | None \<Rightarrow> lexer (Outside (w @ [c])) cs)"
| "lexer (Inside k) [] = None"
| "lexer (Inside k) (c # cs) =
     (if c = CHR 0x22 then map_option (\<lambda>ts. TString k # ts) (lexer (Outside []) cs)
      else if plainChar c then lexer (Inside (k @ [c])) cs
      else None)"

definition parseNat :: "string \<Rightarrow> nat option" where
  "parseNat ds =
     (if ds = [] \<or> \<not> list_all isDigit ds \<or> (hd ds = CHR ''0'' \<and> length ds > 1) then None
      else Some (foldl (\<lambda>a c. 10 * a + (of_char c - 48)) 0 ds))"

definition parseInt :: "string \<Rightarrow> int option" where
  "parseInt w =
     (case w of
        [] \<Rightarrow> None
      | c # ds \<Rightarrow> if c = CHR ''-'' then map_option (\<lambda>n. - int n) (parseNat ds)
                  else map_option int (parseNat w))"

definition wordValue :: "string \<Rightarrow> jsval option" where
  "wordValue w =
     (if w = ''true'' then Some (Bool True)
      else if w = ''false'' then Some (Bool False)
      else if w = ''null'' then Some Null
      else map_option Num (parseInt w))"

text \<open>A key that is the canonical text of an array index is enumerated before the others.\<close>

definition indexKey :: "string \<Rightarrow> bool" where
  "indexKey k = (parseNat k \<noteq> None)"

text \<open>
  The parser reads the tokens after the opening bracket, one at a time. Members are added
  in the order read; a repeated key keeps its place and takes the later value. The first
  argument is the array read so far.
\<close>

datatype pstate =
  ExpectObject | InObject jsobject | ExpectColon jsobject string
  | ExpectValue jsobject string | AfterMember jsobject | AfterObject | Done

definition parseStep :: "jsobject list \<Rightarrow> pstate \<Rightarrow> token \<Rightarrow> (jsobject list \<times> pstate) option" where
  "parseStep acc st t =
     (case st of
        ExpectObject \<Rightarrow>
          (case t of TLBrace \<Rightarrow> Some (acc, InObject []) | _ \<Rightarrow> None)
      | InObject obj \<Rightarrow>
          (case t of
             TString k \<Rightarrow> if indexKey k then None else Some (acc, ExpectColon obj k)
           | TRBrace \<Rightarrow> if obj = [] then Some (acc @ [obj], AfterObject) else None
           | _ \<Rightarrow> None)
      | ExpectColon obj k \<Rightarrow>
          (case t of TColon \<Rightarrow> Some (acc, ExpectValue obj k) | _ \<Rightarrow> None)
      | ExpectValue obj k \<Rightarrow>
          (case t of
             TWord w \<Rightarrow> map_option (\<lambda>v. (acc, AfterMember (AList.update k v obj))) (wordValue w)
           | _ \<Rightarrow> None)
      | AfterMember obj \<Rightarrow>
          (case t of
             TComma \<Rightarrow> Some (acc, InObject obj)
           | TRBrace \<Rightarrow> Some (acc @ [obj], AfterObject)
           | _ \<Rightarrow> None)
      | AfterObject \<Rightarrow>
          (case t of
             TComma \<Rightarrow> Some (acc, ExpectObject)
           | TRBracket \<Rightarrow> Some (acc, Done)
           | _ \<Rightarrow> None)
      | Done \<Rightarrow> None)"

fun parseElements :: "jsobject list \<Rightarrow> pstate \<Rightarrow> token list \<Rightarrow> jsobject list option" where
  "parseElements acc st [] = (if st = Done then Some acc else None)"
| "parseElements acc st (t # ts) =
     (case parseStep acc st t of
        None \<Rightarrow> None
      | Some (acc', st') \<Rightarrow> parseElements acc' st' ts)"

definition valueStart :: string where
  "valueStart = [CHR 0x20, CHR 0x09, CHR 0x0A, CHR 0x0D, CHR 0x22] @ ''[{-0123456789tfn''"

definition cannotStart :: "string \<Rightarrow> bool" where
  "cannotStart text = (case text of [] \<Rightarrow> True | c # _ \<Rightarrow> c \<notin> set valueStart)"

definition JSON_parse :: "string \<Rightarrow> parse_result option" where
  "JSON_parse text =
     (if cannotStart text then Some Throws
      else case lexer (Outside []) text of
             None \<Rightarrow> None
           | Some [] \<Rightarrow> None
           | Some (t # ts) \<Rightarrow>
               (case t of
                  TLBracket \<Rightarrow>
                    if ts = [TRBracket] then Some (ReturnsFrames [])
                    else map_option ReturnsFrames (parseElements [] ExpectObject ts)
                | TLBrace \<Rightarrow>
                    (case parseElements [] ExpectObject (t # ts @ [TRBracket]) of
                       Some [obj] \<Rightarrow> Some (ReturnsNonArray (Object obj))
                     | _ \<Rightarrow> None)
                | TWord w \<Rightarrow>
                    if ts = [] then map_option (\<lambda>v. ReturnsNonArray (Scalar v)) (wordValue w)
                    else None
                | TString k \<Rightarrow>
                    if ts = [] then Some (ReturnsNonArray (Scalar (Str k))) else None
                | _ \<Rightarrow> None))"

text \<open>
  \<open>JSON.parse\<close> as the function the operations take: what \<open>JSON_parse\<close> says
  where it says something, and any given function on the other texts.
\<close>

definition parseOr :: "json_parse \<Rightarrow> json_parse" where
  "parseOr rest text = (case JSON_parse text of Some r \<Rightarrow> r | None \<Rightarrow> rest text)"

text \<open>
  The sequences the format carries back unchanged: objects with distinct keys, written
  without escapes and not array indices, whose values are integers, booleans or
  \<open>null\<close>. Frame records are of this kind.
\<close>

fun serializable :: "jsval \<Rightarrow> bool" where
  "serializable Undefined = False"
| "serializable Null = True"
| "serializable (Bool b) = True"
| "serializable (Num n) = True"
| "serializable (Str s) = False"

definition plainKey :: "string \<Rightarrow> bool" where
  "plainKey k = (list_all plainChar k \<and> \<not> indexKey k)"

definition wfMember :: "string \<times> jsval \<Rightarrow> bool" where
  "wfMember m = (plainKey (fst m) \<and> serializable (snd m))"

definition wfObject :: "jsobject \<Rightarrow> bool" where
  "wfObject obj = (distinct (map fst obj) \<and> list_all wfMember obj)"

definition wfSequence :: "jsobject list \<Rightarrow> bool" where
  "wfSequence xs = list_all wfObject xs"

text \<open>The text of a value and the tokens of members, objects and arrays.\<close>

definition valueText :: "jsval \<Rightarrow> string" where
  "valueText v = (case stringifyValue v of None \<Rightarrow> [] | Some text \<Rightarrow> text)"

definition memberText :: "string \<times> jsval \<Rightarrow> string" where
  "memberText m = quoteString (fst m) @ CHR '':'' # valueText (snd m)"

definition memberTokens :: "string \<times> jsval \<Rightarrow> token list" where
  "memberTokens m = [TString (fst m), TColon, TWord (valueText (snd m))]"

fun joinTokens :: "token list list \<Rightarrow> token list" where
  "joinTokens [] = []"
| "joinTokens [x] = x"
| "joinTokens (x # y # ys) = x @ TComma # joinTokens (y # ys)"

definition objectTokens :: "jsobject \<Rightarrow> token list" where
  "objectTokens obj = TLBrace # joinTokens (map memberTokens obj) @ [TRBrace]"

text \<open>
  A frame record: an object with exactly the keys \<open>frame\<close>, an integer, and
  \<open>left\<close>, \<open>right\<close>, \<open>up\<close>, \<open>down\<close>, \<open>action\<close>, \<open>cancel\<close>,
  booleans.
\<close>

definition inputFields :: "string list" where
  "inputFields = [''left'', ''right'', ''up'', ''down'', ''action'', ''cancel'']"

fun isBool :: "jsval \<Rightarrow> bool" where
  "isBool (Bool b) = True"
| "isBool v = False"

fun isNum :: "jsval \<Rightarrow> bool" where
  "isNum (Num n) = True"
| "isNum v = False"

definition frameRecord :: "jsobject \<Rightarrow> bool" where
  "frameRecord f =
     (distinct (map fst f) \<and> set (map fst f) = set (''frame'' # inputFields) \<and>
      isNum (getProp f ''frame'') \<and> list_all (\<lambda>k. isBool (getProp f k)) inputFields)"

text \<open>
  A frame record as the recorder of part\_000 writes it: the fields of a frame record in
  the order written, followed by \<open>hasInput\<close>, which tells whether any of the six is set.
\<close>

definition frameRecordWithHasInput :: "jsobject \<Rightarrow> bool" where
  "frameRecordWithHasInput f =
     (map fst f = ''frame'' # inputFields @ [''hasInput''] \<and>
      isNum (getProp f ''frame'') \<and> list_all (\<lambda>k. isBool (getProp f k)) inputFields \<and>
      getProp f ''hasInput'' = Bool (list_ex (\<lambda>k. getProp f k = Bool True) inputFields))"

text \<open>The state \<open>init\<close> leaves when the game is loaded and no key is held.\<close>

definition readyTAS :: tas where
  "readyTAS = initialTAS\<lparr>inputManager := Some \<lparr>tb = [], ha = None\<rparr>,
     keyboardHandler := Some \<lparr>Ob = Map.empty,
       Ea = [(0, [37, 65]), (1, [39, 68]), (2, [38, 87]), (3, [40, 83]), (4, [32, 13]),
             (5, [8, 49, 46])]\<rparr>\<rparr>"

definition readyTAS_ev :: tas_ev where
  "readyTAS_ev = initialTAS_ev\<lparr>inputManager_ev := Some \<lparr>tb = [], ha = None\<rparr>\<rparr>"

text \<open>
  The key \<open>pressDirection\<close> presses for a direction: the first key the handler binds
  to it, else the fallback key; and the keys \<open>setInputState\<close> presses for a state.
\<close>

definition directionKey :: "keyboard_handler \<Rightarrow> nat \<Rightarrow> nat list" where
  "directionKey kh direction =
     (case map_of (Ea kh) direction of
        Some (keyCode # _) \<Rightarrow> [keyCode]
      | _ \<Rightarrow> (case map_of fallbackKeys direction of
                Some keyCode \<Rightarrow> [keyCode]
              | None \<Rightarrow> []))"

definition wantedKeys :: "keyboard_handler \<Rightarrow> jsobject \<Rightarrow> nat list" where
  "wantedKeys kh state =
     (if truthy (getProp state ''left'') then directionKey kh DIRECTION_LEFT else []) @
     (if truthy (getProp state ''right'') then directionKey kh DIRECTION_RIGHT else []) @
     (if truthy (getProp state ''up'') then directionKey kh DIRECTION_UP else []) @
     (if truthy (getProp state ''down'') then directionKey kh DIRECTION_DOWN else []) @
     (if truthy (getProp state ''action'') then [13] else []) @
     (if truthy (getProp state ''cancel'') then directionKey kh DIRECTION_CANCEL else [])"

text \<open>The session with the given keys pressed over a pressed-state object.\<close>

definition withKeys :: "tas \<Rightarrow> keyboard_handler \<Rightarrow> (nat \<rightharpoonup> bool) \<Rightarrow> nat list \<Rightarrow> tas" where
  "withKeys s kh released ks =
     s\<lparr>keyboardHandler :=
         Some (kh\<lparr>Ob := (\<lambda>key. if key \<in> set ks then Some True else released key)\<rparr>)\<rparr>"

text \<open>
  The keys \<open>setInputState\<close> of the event-dispatch module presses for a state, the key
  an event is about, and whether the events dispatched so far leave a key held: its last
  event is a key-down.
\<close>

definition wantedKeys_ev :: "jsobject \<Rightarrow> nat list" where
  "wantedKeys_ev state =
     (if truthy (getProp state ''left'') then [KEYS_LEFT] else []) @
     (if truthy (getProp state ''right'') then [KEYS_RIGHT] else []) @
     (if truthy (getProp state ''up'') then [KEYS_UP] else []) @
     (if truthy (getProp state ''down'') then [KEYS_DOWN] else []) @
     (if truthy (getProp state ''action'') then [KEYS_ENTER] else []) @
     (if truthy (getProp state ''cancel'') then [KEYS_BACKSPACE] else [])"

fun eventKey :: "key_event \<Rightarrow> nat" where
  "eventKey (KeyDown k) = k"
| "eventKey (KeyUp k) = k"

definition heldAfter :: "key_event list \<Rightarrow> nat \<Rightarrow> bool" where
  "heldAfter events k =
     (case filter (\<lambda>e. eventKey e = k) events of
        [] \<Rightarrow> False
      | e # es \<Rightarrow> last (e # es) = KeyDown k)"

text \<open>The ready sessions with the key A (65), which is not one of \<open>KEYS\<close>, pressed.\<close>

definition heldTAS :: tas where
  "heldTAS = pressKey 65 readyTAS"

definition heldTAS_ev :: tas_ev where
  "heldTAS_ev = pressKey_ev 65 readyTAS_ev"

section \<open>What the adapters leave untouched\<close>

lemma releaseAllKeys_fields [simp]:
  "recording (releaseAllKeys s) = recording s"
  "isRecording (releaseAllKeys s) = isRecording s"
  "isPlaying (releaseAllKeys s) = isPlaying s"
  "playbackIndex (releaseAllKeys s) = playbackIndex s"
  "frameCount (releaseAllKeys s) = frameCount s"
  "inputManager (releaseAllKeys s) = inputManager s"
  "tickHooked (releaseAllKeys s) = tickHooked s"
  "hostTickAvailable (releaseAllKeys s) = hostTickAvailable s"
  by (simp_all add: releaseAllKeys_def split: option.splits)

lemma pressKey_fields [simp]:
  "recording (pressKey k s) = recording s"
  "isRecording (pressKey k s) = isRecording s"
  "isPlaying (pressKey k s) = isPlaying s"
  "playbackIndex (pressKey k s) = playbackIndex s"
  "frameCount (pressKey k s) = frameCount s"
  "inputManager (pressKey k s) = inputManager s"
  "tickHooked (pressKey k s) = tickHooked s"
  "hostTickAvailable (pressKey k s) = hostTickAvailable s"
  by (simp_all add: pressKey_def split: option.splits)

lemma pressDirection_fields [simp]:
  "recording (pressDirection d s) = recording s"
  "isRecording (pressDirection d s) = isRecording s"
  "isPlaying (pressDirection d s) = isPlaying s"
  "playbackIndex (pressDirection d s) = playbackIndex s"
  "frameCount (pressDirection d s) = frameCount s"
  "inputManager (pressDirection d s) = inputManager s"
  "tickHooked (pressDirection d s) = tickHooked s"
  "hostTickAvailable (pressDirection d s) = hostTickAvailable s"
  by (simp_all add: pressDirection_def split: option.splits list.splits)

lemma setInputState_fields [simp]:
  "recording (setInputState st s) = recording s"
  "isRecording (setInputState st s) = isRecording s"
  "isPlaying (setInputState st s) = isPlaying s"
  "playbackIndex (setInputState st s) = playbackIndex s"
  "frameCount (setInputState st s) = frameCount s"
  "inputManager (setInputState st s) = inputManager s"
  "tickHooked (setInputState st s) = tickHooked s"
  "hostTickAvailable (setInputState st s) = hostTickAvailable s"
  by (simp_all add: setInputState_def Let_def TAS_left_def TAS_right_def TAS_up_def
        TAS_down_def TAS_action_def TAS_cancel_def)

lemma playbackFrame_fields [simp]:
  "recording (snd (playbackFrame s)) = recording s"
  "isRecording (snd (playbackFrame s)) = isRecording s"
  "frameCount (snd (playbackFrame s)) = frameCount s"
  "inputManager (snd (playbackFrame s)) = inputManager s"
  by (simp_all add: playbackFrame_def stopPlayback_def Let_def)

lemma releaseAllKeys_ev_eq:
  "releaseAllKeys_ev s = s\<lparr>dispatched := dispatched s @ map KeyUp KEYS\<rparr>"
  by (simp add: releaseAllKeys_ev_def KEYS_def releaseKey_ev_def)

lemma setInputState_ev_fields [simp]:
  "recording_ev (setInputState_ev st s) = recording_ev s"
  "isRecording_ev (setInputState_ev st s) = isRecording_ev s"
  "isPlaying_ev (setInputState_ev st s) = isPlaying_ev s"
  "playbackIndex_ev (setInputState_ev st s) = playbackIndex_ev s"
  "frameCount_ev (setInputState_ev st s) = frameCount_ev s"
  "inputManager_ev (setInputState_ev st s) = inputManager_ev s"
  by (simp_all add: setInputState_ev_def Let_def releaseAllKeys_ev_eq pressKey_ev_def)

lemma playbackFrame_ev_fields [simp]:
  "recording_ev (snd (playbackFrame_ev s)) = recording_ev s"
  "isRecording_ev (snd (playbackFrame_ev s)) = isRecording_ev s"
  "frameCount_ev (snd (playbackFrame_ev s)) = frameCount_ev s"
  "inputManager_ev (snd (playbackFrame_ev s)) = inputManager_ev s"
  by (simp_all add: playbackFrame_ev_def stopPlayback_ev_def Let_def releaseAllKeys_ev_eq)

section \<open>Recording\<close>

lemma hookedTick_recording:
  assumes "isRecording s" "inputManager s \<noteq> None"
  shows "isRecording (hookedTick h s)"
    and "inputManager (hookedTick h s) \<noteq> None"
    and "frameCount (hookedTick h s) = frameCount s + 1"
    and "map frameField (recording (hookedTick h s)) =
           map frameField (recording s) @ [Num (int (frameCount s))]"
  using assms
  by (auto simp: hookedTick_def originalTick_def recordFrame_def getInputState_def Let_def
        frameField_def getProp_def split: option.splits)

lemma ticks_recording:
  "isRecording s \<Longrightarrow> inputManager s \<noteq> None \<Longrightarrow>
     isRecording (ticks hs s) \<and>
     map frameField (recording (ticks hs s)) =
       map frameField (recording s) @
       map (\<lambda>i. Num (int i)) [frameCount s ..< frameCount s + length hs]"
proof (induction hs arbitrary: s)
  case Nil
  then show ?case by simp
next
  case (Cons h hs)
  note step = hookedTick_recording [OF Cons.prems, of h]
  have "[frameCount s ..< frameCount s + length (h # hs)] =
          frameCount s # [frameCount s + 1 ..< frameCount s + 1 + length hs]"
    by (subst upt_rec) simp
  with Cons.IH [OF step(1) step(2)] step(3,4) show ?case by simp
qed

lemma startRecording_fields:
  "isRecording (startRecording s)" "recording (startRecording s) = []"
  "frameCount (startRecording s) = 0" "inputManager (startRecording s) = inputManager s"
  by (simp_all add: startRecording_def hookGameTick_def Let_def)

lemma hookedTick_ev_recording:
  assumes "isRecording_ev s" "inputManager_ev s \<noteq> None"
  shows "isRecording_ev (hookedTick_ev h s)"
    and "inputManager_ev (hookedTick_ev h s) \<noteq> None"
    and "frameCount_ev (hookedTick_ev h s) = frameCount_ev s + 1"
    and "map frameField (recording_ev (hookedTick_ev h s)) =
           map frameField (recording_ev s) @ [Num (int (frameCount_ev s))]"
  using assms
  by (auto simp: hookedTick_ev_def recordFrame_ev_def getInputState_ev_def Let_def
        frameField_def getProp_def split: option.splits)

lemma ticks_ev_recording:
  "isRecording_ev s \<Longrightarrow> inputManager_ev s \<noteq> None \<Longrightarrow>
     isRecording_ev (ticks_ev hs s) \<and>
     map frameField (recording_ev (ticks_ev hs s)) =
       map frameField (recording_ev s) @
       map (\<lambda>i. Num (int i)) [frameCount_ev s ..< frameCount_ev s + length hs]"
proof (induction hs arbitrary: s)
  case Nil
  then show ?case by simp
next
  case (Cons h hs)
  note step = hookedTick_ev_recording [OF Cons.prems, of h]
  have "[frameCount_ev s ..< frameCount_ev s + length (h # hs)] =
          frameCount_ev s # [frameCount_ev s + 1 ..< frameCount_ev s + 1 + length hs]"
    by (subst upt_rec) simp
  with Cons.IH [OF step(1) step(2)] step(3,4) show ?case by simp
qed

lemma startRecording_ev_fields:
  "isRecording_ev (startRecording_ev s)" "recording_ev (startRecording_ev s) = []"
  "frameCount_ev (startRecording_ev s) = 0"
  "inputManager_ev (startRecording_ev s) = inputManager_ev s"
  by (simp_all add: startRecording_ev_def hookGameTick_ev_def Let_def)

lemma frames_counted:
  assumes "map frameField xs = map (\<lambda>i. Num (int i)) [0 ..< n]"
  shows "length xs = n"
  using assms by (metis length_map length_upt minus_nat.diff_0)

lemma recordFrame_unbound:
  "isRecording s \<Longrightarrow> inputManager s = None \<Longrightarrow>
   recordFrame s = s\<lparr>frameCount := frameCount s + 1\<rparr>"
  by (simp add: recordFrame_def getInputState_def)

lemma recordFrame_ev_unbound:
  "isRecording_ev s \<Longrightarrow> inputManager_ev s = None \<Longrightarrow>
   recordFrame_ev s = s\<lparr>frameCount_ev := frameCount_ev s + 1\<rparr>"
  by (simp add: recordFrame_ev_def getInputState_ev_def)

lemma hookedTick_unbound:
  assumes "isRecording s" "inputManager s = None"
  shows "isRecording (hookedTick h s) \<and> inputManager (hookedTick h s) = None \<and>
         frameCount (hookedTick h s) = frameCount s + 1 \<and>
         recording (hookedTick h s) = recording s"
  using assms
  by (simp add: hookedTick_def originalTick_def recordFrame_def getInputState_def Let_def)

lemma ticks_unbound:
  "isRecording s \<Longrightarrow> inputManager s = None \<Longrightarrow>
   recording (ticks hs s) = recording s \<and> frameCount (ticks hs s) = frameCount s + length hs"
proof (induction hs arbitrary: s)
  case Nil
  then show ?case by simp
next
  case (Cons h hs)
  from hookedTick_unbound [OF Cons.prems, of h] Cons.IH [of "hookedTick h s"]
  show ?case by simp
qed

lemma hookedTick_ev_unbound:
  assumes "isRecording_ev s" "inputManager_ev s = None"
  shows "isRecording_ev (hookedTick_ev h s) \<and> inputManager_ev (hookedTick_ev h s) = None \<and>
         frameCount_ev (hookedTick_ev h s) = frameCount_ev s + 1 \<and>
         recording_ev (hookedTick_ev h s) = recording_ev s"
  using assms
  by (simp add: hookedTick_ev_def recordFrame_ev_def getInputState_ev_def Let_def)

lemma ticks_ev_unbound:
  "isRecording_ev s \<Longrightarrow> inputManager_ev s = None \<Longrightarrow>
   recording_ev (ticks_ev hs s) = recording_ev s \<and>
   frameCount_ev (ticks_ev hs s) = frameCount_ev s + length hs"
proof (induction hs arbitrary: s)
  case Nil
  then show ?case by simp
next
  case (Cons h hs)
  from hookedTick_ev_unbound [OF Cons.prems, of h] Cons.IH [of "hookedTick_ev h s"]
  show ?case by simp
qed

text \<open>
  Claim C3, as the code has it. \<open>recordFrame\<close> appends a record only when
  \<open>getInputState\<close> returns a state, that is when the input manager is bound. With the
  input manager bound, \<open>startRecording\<close> followed by \<open>N\<close> hooked ticks and
  \<open>stopRecording\<close> returns exactly \<open>N\<close> records whose \<open>frame\<close> fields are
  \<open>0, 1, ..., N - 1\<close> in order, whatever the game's own ticks do to the host objects.
  With the input manager not bound, \<open>recordFrame\<close> appends nothing and only advances
  the frame counter: the \<open>N\<close> ticks leave the recording empty and the counter at
  \<open>N\<close>. Both hold in part\_000 and in the event-dispatch module.
\<close>

theorem C3_recording_frames:
  "(inputManager s \<noteq> None \<longrightarrow>
      length (fst (stopRecording (ticks hs (startRecording s)))) = length hs \<and>
      map frameField (fst (stopRecording (ticks hs (startRecording s)))) =
        map (\<lambda>i. Num (int i)) [0 ..< length hs]) \<and>
   (inputManager s = None \<longrightarrow>
      fst (stopRecording (ticks hs (startRecording s))) = [] \<and>
      frameCount (ticks hs (startRecording s)) = length hs) \<and>
   (isRecording s \<and> inputManager s = None \<longrightarrow>
      recordFrame s = s\<lparr>frameCount := frameCount s + 1\<rparr>) \<and>
   (inputManager_ev e \<noteq> None \<longrightarrow>
      length (fst (stopRecording_ev (ticks_ev gs (startRecording_ev e)))) = length gs \<and>
      map frameField (fst (stopRecording_ev (ticks_ev gs (startRecording_ev e)))) =
        map (\<lambda>i. Num (int i)) [0 ..< length gs]) \<and>
   (inputManager_ev e = None \<longrightarrow>
      fst (stopRecording_ev (ticks_ev gs (startRecording_ev e))) = [] \<and>
      frameCount_ev (ticks_ev gs (startRecording_ev e)) = length gs) \<and>
   (isRecording_ev e \<and> inputManager_ev e = None \<longrightarrow>
      recordFrame_ev e = e\<lparr>frameCount_ev := frameCount_ev e + 1\<rparr>)"
proof -
  have a: "map frameField (recording (ticks hs (startRecording s))) =
          map (\<lambda>i. Num (int i)) [0 ..< length hs]" if "inputManager s \<noteq> None"
    using ticks_recording [of "startRecording s" hs] that
    by (simp add: startRecording_fields)
  have b: "map frameField (recording_ev (ticks_ev gs (startRecording_ev e))) =
          map (\<lambda>i. Num (int i)) [0 ..< length gs]" if "inputManager_ev e \<noteq> None"
    using ticks_ev_recording [of "startRecording_ev e" gs] that
    by (simp add: startRecording_ev_fields)
  have c: "recording (ticks hs (startRecording s)) = [] \<and>
           frameCount (ticks hs (startRecording s)) = length hs" if "inputManager s = None"
    using ticks_unbound [of "startRecording s" hs] that
    by (simp add: startRecording_fields)
  have d: "recording_ev (ticks_ev gs (startRecording_ev e)) = [] \<and>
           frameCount_ev (ticks_ev gs (startRecording_ev e)) = length gs"
    if "inputManager_ev e = None"
    using ticks_ev_unbound [of "startRecording_ev e" gs] that
    by (simp add: startRecording_ev_fields)
  show ?thesis
    using a b c d frames_counted [OF a] frames_counted [OF b]
      recordFrame_unbound [of s] recordFrame_ev_unbound [of e]
    by (simp add: stopRecording_def stopRecording_ev_def)
qed

theorem C3_recording_frames_witness:
  "inputManager readyTAS \<noteq> None \<and> inputManager initialTAS = None \<and>
   inputManager_ev readyTAS_ev \<noteq> None \<and> inputManager_ev initialTAS_ev = None \<and>
   length (fst (stopRecording (ticks [(id, id), (id, id)] (startRecording readyTAS)))) = 2 \<and>
   map frameField (fst (stopRecording (ticks [(id, id), (id, id)] (startRecording readyTAS)))) =
     [Num 0, Num 1] \<and>
   fst (stopRecording (ticks [(id, id), (id, id)] (startRecording initialTAS))) = [] \<and>
   frameCount (ticks [(id, id), (id, id)] (startRecording initialTAS)) = 2 \<and>
   isRecording (startRecording initialTAS) \<and> inputManager (startRecording initialTAS) = None \<and>
   recordFrame (startRecording initialTAS) = (startRecording initialTAS)\<lparr>frameCount := 1\<rparr> \<and>
   length (fst (stopRecording_ev (ticks_ev [id, id, id] (startRecording_ev readyTAS_ev)))) = 3 \<and>
   fst (stopRecording_ev (ticks_ev [id, id] (startRecording_ev initialTAS_ev))) = [] \<and>
   frameCount_ev (ticks_ev [id, id] (startRecording_ev initialTAS_ev)) = 2"
proof -
  have b: "inputManager readyTAS \<noteq> None" "inputManager initialTAS = None"
    "inputManager_ev readyTAS_ev \<noteq> None" "inputManager_ev initialTAS_ev = None"
    by (simp_all add: readyTAS_def readyTAS_ev_def initialTAS_def initialTAS_ev_def)
  have r: "isRecording (startRecording initialTAS)" "inputManager (startRecording initialTAS) = None"
    "frameCount (startRecording initialTAS) = 0"
    by (simp_all add: startRecording_fields initialTAS_def)
  have u: "[0 ..< 2] = [0, Suc 0]" by (simp add: upt_rec)
  show ?thesis
    using b r
      C3_recording_frames [of readyTAS "[(id, id), (id, id)]" readyTAS_ev "[id, id, id]"]
      C3_recording_frames [of initialTAS "[(id, id), (id, id)]" initialTAS_ev "[id, id]"]
      C3_recording_frames [of "startRecording initialTAS" "[]" initialTAS_ev "[]"]
    by (simp add: u)
qed

text \<open>
  Claim C3 as stated fails before the input manager is bound: after \<open>startRecording\<close>
  on the initial state, one hooked tick records nothing (only the frame counter moves), so
  \<open>stopRecording\<close> returns no record for one observed tick.
\<close>

theorem C3_unbound_counterexample:
  "fst (stopRecording (ticks [(id, id)] (startRecording initialTAS))) = [] \<and>
   length (fst (stopRecording (ticks [(id, id)] (startRecording initialTAS)))) \<noteq>
     length [(id :: input_manager \<Rightarrow> input_manager, id :: keyboard_handler \<Rightarrow> keyboard_handler)] \<and>
   frameCount (ticks [(id, id)] (startRecording initialTAS)) = 1"
  by (simp add: stopRecording_def startRecording_def hookGameTick_def initialTAS_def
       hookedTick_def originalTick_def recordFrame_def getInputState_def Let_def)

section \<open>Playback\<close>

lemma keyPressed_releaseAllKeys: "\<not> keyPressed (releaseAllKeys s) k"
  by (simp add: keyPressed_def releaseAllKeys_def split: option.splits)

lemma originalTick_fields [simp]:
  "recording (originalTick h s) = recording s"
  "isRecording (originalTick h s) = isRecording s"
  "isPlaying (originalTick h s) = isPlaying s"
  "playbackIndex (originalTick h s) = playbackIndex s"
  "frameCount (originalTick h s) = frameCount s"
  by (simp_all add: originalTick_def)

lemma hookedTick_playing:
  assumes "isPlaying s" "\<not> isRecording s" "playbackIndex s < length (recording s)"
  shows "isPlaying (hookedTick h s) \<and> \<not> isRecording (hookedTick h s) \<and>
         playbackIndex (hookedTick h s) = playbackIndex s + 1 \<and>
         recording (hookedTick h s) = recording s"
  using assms by (simp add: hookedTick_def playbackFrame_def Let_def)

lemma hookedTick_exhausted:
  assumes "isPlaying s" "\<not> isRecording s" "playbackIndex s \<ge> length (recording s)"
  shows "\<not> isPlaying (hookedTick h s) \<and> \<not> isRecording (hookedTick h s) \<and>
         playbackIndex (hookedTick h s) = 0 \<and> (\<forall>k. \<not> keyPressed (hookedTick h s) k) \<and>
         recording (hookedTick h s) = recording s"
  using assms
  by (simp add: hookedTick_def playbackFrame_def Let_def stopPlayback_def
        keyPressed_releaseAllKeys)

lemma ticks_playing:
  "isPlaying s \<Longrightarrow> \<not> isRecording s \<Longrightarrow>
   playbackIndex s + length hs \<le> length (recording s) \<Longrightarrow>
     isPlaying (ticks hs s) \<and> \<not> isRecording (ticks hs s) \<and>
     playbackIndex (ticks hs s) = playbackIndex s + length hs \<and>
     recording (ticks hs s) = recording s"
proof (induction hs arbitrary: s)
  case Nil
  then show ?case by simp
next
  case (Cons h hs)
  from Cons.prems have "playbackIndex s < length (recording s)" by simp
  from hookedTick_playing [OF Cons.prems(1,2) this, of h] Cons.prems(3)
  show ?case using Cons.IH [of "hookedTick h s"] by simp
qed

lemma ticks_snoc: "ticks (hs @ [h]) s = hookedTick h (ticks hs s)"
  by (induction hs arbitrary: s) simp_all

lemma startPlayback_array:
  assumes "S \<noteq> []"
  shows "fst (startPlayback parse (ArrayArg S) s) = PlaybackStarted"
    and "recording (snd (startPlayback parse (ArrayArg S) s)) = S"
    and "isPlaying (snd (startPlayback parse (ArrayArg S) s))"
    and "\<not> isRecording (snd (startPlayback parse (ArrayArg S) s))"
    and "playbackIndex (snd (startPlayback parse (ArrayArg S) s)) = 0"
  using assms by (simp_all add: startPlayback_def Let_def hookGameTick_def)

lemma hookedTick_ev_playing:
  assumes "isPlaying_ev s" "\<not> isRecording_ev s" "playbackIndex_ev s < length (recording_ev s)"
  shows "isPlaying_ev (hookedTick_ev h s) \<and> \<not> isRecording_ev (hookedTick_ev h s) \<and>
         playbackIndex_ev (hookedTick_ev h s) = playbackIndex_ev s + 1 \<and>
         recording_ev (hookedTick_ev h s) = recording_ev s"
  using assms by (simp add: hookedTick_ev_def playbackFrame_ev_def Let_def)

lemma hookedTick_ev_exhausted:
  assumes "isPlaying_ev s" "\<not> isRecording_ev s" "playbackIndex_ev s \<ge> length (recording_ev s)"
  shows "\<not> isPlaying_ev (hookedTick_ev h s) \<and> \<not> isRecording_ev (hookedTick_ev h s) \<and>
         playbackIndex_ev (hookedTick_ev h s) = 0 \<and>
         dispatched (hookedTick_ev h s) = dispatched s @ map KeyUp KEYS \<and>
         recording_ev (hookedTick_ev h s) = recording_ev s"
  using assms
  by (simp add: hookedTick_ev_def playbackFrame_ev_def Let_def stopPlayback_ev_def
        releaseAllKeys_ev_eq)

lemma ticks_ev_playing:
  "isPlaying_ev s \<Longrightarrow> \<not> isRecording_ev s \<Longrightarrow>
   playbackIndex_ev s + length hs \<le> length (recording_ev s) \<Longrightarrow>
     isPlaying_ev (ticks_ev hs s) \<and> \<not> isRecording_ev (ticks_ev hs s) \<and>
     playbackIndex_ev (ticks_ev hs s) = playbackIndex_ev s + length hs \<and>
     recording_ev (ticks_ev hs s) = recording_ev s"
proof (induction hs arbitrary: s)
  case Nil
  then show ?case by simp
next
  case (Cons h hs)
  from Cons.prems have "playbackIndex_ev s < length (recording_ev s)" by simp
  from hookedTick_ev_playing [OF Cons.prems(1,2) this, of h] Cons.prems(3)
  show ?case using Cons.IH [of "hookedTick_ev h s"] by simp
qed

lemma ticks_ev_snoc: "ticks_ev (hs @ [h]) s = hookedTick_ev h (ticks_ev hs s)"
  by (induction hs arbitrary: s) simp_all

lemma startPlayback_ev_array:
  assumes "S \<noteq> []"
  shows "fst (startPlayback_ev parse (ArrayArg S) s) = PlaybackStarted"
    and "recording_ev (snd (startPlayback_ev parse (ArrayArg S) s)) = S"
    and "isPlaying_ev (snd (startPlayback_ev parse (ArrayArg S) s))"
    and "\<not> isRecording_ev (snd (startPlayback_ev parse (ArrayArg S) s))"
    and "playbackIndex_ev (snd (startPlayback_ev parse (ArrayArg S) s)) = 0"
  using assms by (simp_all add: startPlayback_ev_def Let_def hookGameTick_ev_def)

lemma playback_run:
  assumes "S \<noteq> []" "length hs \<le> length S"
  shows "isPlaying (ticks hs (snd (startPlayback parse (ArrayArg S) s))) \<and>
         \<not> isRecording (ticks hs (snd (startPlayback parse (ArrayArg S) s))) \<and>
         playbackIndex (ticks hs (snd (startPlayback parse (ArrayArg S) s))) = length hs \<and>
         recording (ticks hs (snd (startPlayback parse (ArrayArg S) s))) = S"
  using ticks_playing [of "snd (startPlayback parse (ArrayArg S) s)" hs]
    startPlayback_array [OF assms(1), of parse s] assms(2) by simp

lemma playback_ev_run:
  assumes "S \<noteq> []" "length hs \<le> length S"
  shows "isPlaying_ev (ticks_ev hs (snd (startPlayback_ev parse (ArrayArg S) s))) \<and>
         \<not> isRecording_ev (ticks_ev hs (snd (startPlayback_ev parse (ArrayArg S) s))) \<and>
         playbackIndex_ev (ticks_ev hs (snd (startPlayback_ev parse (ArrayArg S) s))) = length hs \<and>
         recording_ev (ticks_ev hs (snd (startPlayback_ev parse (ArrayArg S) s))) = S"
  using ticks_ev_playing [of "snd (startPlayback_ev parse (ArrayArg S) s)" hs]
    startPlayback_ev_array [OF assms(1), of parse s] assms(2) by simp

section \<open>Mutual exclusion and empty playback\<close>

lemma hookedTick_not_recording:
  "\<not> isRecording s \<Longrightarrow> \<not> isRecording (hookedTick h s)"
  by (simp add: hookedTick_def Let_def)

lemma ticks_not_recording: "\<not> isRecording s \<Longrightarrow> \<not> isRecording (ticks hs s)"
  by (induction hs arbitrary: s) (simp_all add: hookedTick_not_recording)

lemma hookedTick_ev_not_recording:
  "\<not> isRecording_ev s \<Longrightarrow> \<not> isRecording_ev (hookedTick_ev h s)"
  by (simp add: hookedTick_ev_def Let_def)

lemma ticks_ev_not_recording: "\<not> isRecording_ev s \<Longrightarrow> \<not> isRecording_ev (ticks_ev hs s)"
  by (induction hs arbitrary: s) (simp_all add: hookedTick_ev_not_recording)

text \<open>
  In part\_000 and in the event-dispatch module a \<open>startPlayback\<close> that starts
  playback, whatever the form of its argument, clears the recording flag, and no tick sets
  it again.
\<close>

lemma startPlayback_started:
  assumes "fst (startPlayback parse arg s) = PlaybackStarted"
  shows "isPlaying (snd (startPlayback parse arg s)) \<and>
         \<not> isRecording (snd (startPlayback parse arg s))"
  using assms
  by (auto simp: startPlayback_def Let_def split: seq_arg.splits parse_result.splits if_splits)

lemma startPlayback_ev_started:
  assumes "fst (startPlayback_ev parse arg s) = PlaybackStarted"
  shows "isPlaying_ev (snd (startPlayback_ev parse arg s)) \<and>
         \<not> isRecording_ev (snd (startPlayback_ev parse arg s))"
  using assms
  by (auto simp: startPlayback_ev_def Let_def split: seq_arg.splits parse_result.splits if_splits)

lemma hooked_modules_mutual_exclusion:
  assumes "fst (startPlayback parse arg s) = PlaybackStarted"
    and "fst (startPlayback_ev parse arg e) = PlaybackStarted"
  shows "isPlaying (snd (startPlayback parse arg s)) \<and>
         \<not> isRecording (snd (startPlayback parse arg s)) \<and>
         \<not> (isRecording (ticks hs (snd (startPlayback parse arg s))) \<and>
            isPlaying (ticks hs (snd (startPlayback parse arg s)))) \<and>
         isPlaying_ev (snd (startPlayback_ev parse arg e)) \<and>
         \<not> isRecording_ev (snd (startPlayback_ev parse arg e)) \<and>
         \<not> (isRecording_ev (ticks_ev gs (snd (startPlayback_ev parse arg e))) \<and>
            isPlaying_ev (ticks_ev gs (snd (startPlayback_ev parse arg e))))"
  using startPlayback_started [OF assms(1)] startPlayback_ev_started [OF assms(2)]
    ticks_not_recording ticks_ev_not_recording by simp

text \<open>
  Claim C2 at the older direct-state module: its \<open>startPlayback\<close> sets the playing
  flag and leaves the recording flag alone. Called on the state \<open>startRecording\<close>
  produces, with a one-record sequence, it starts playback and leaves both flags true.
\<close>

theorem C2_legacy_both_flags:
  "isRecording (startRecording_legacy initialTAS) \<and>
   fst (startPlayback_legacy (Some [leftFrame]) (startRecording_legacy initialTAS)) =
     PlaybackStarted \<and>
   isPlaying (snd (startPlayback_legacy (Some [leftFrame]) (startRecording_legacy initialTAS))) \<and>
   isRecording (snd (startPlayback_legacy (Some [leftFrame]) (startRecording_legacy initialTAS)))"
  by (simp add: startPlayback_legacy_def startRecording_legacy_def initialTAS_def)

text \<open>
  Claim C5, as the code has it. \<open>startPlayback\<close> stores its argument only if it is
  a non-empty array and then tests the stored recording. When the stored recording is
  empty, \<open>startPlayback([])\<close> reports that there is no sequence to play and changes
  nothing, idle or not.
\<close>

theorem C5_empty_playback:
  assumes "recording s = []" and "recording_ev e = []"
  shows "startPlayback parse (ArrayArg []) s = (NoSequenceToPlay, s) \<and>
         startPlayback_ev parse (ArrayArg []) e = (NoSequenceToPlay, e)"
  using assms by (simp add: startPlayback_def startPlayback_ev_def)

theorem C5_empty_playback_witness:
  "recording initialTAS = [] \<and> recording_ev initialTAS_ev = [] \<and>
   startPlayback (\<lambda>t. Throws) (ArrayArg []) initialTAS = (NoSequenceToPlay, initialTAS) \<and>
   startPlayback_ev (\<lambda>t. Throws) (ArrayArg []) initialTAS_ev = (NoSequenceToPlay, initialTAS_ev)"
  using C5_empty_playback [of initialTAS initialTAS_ev "\<lambda>t. Throws"]
  by (simp add: initialTAS_def initialTAS_ev_def)

text \<open>
  Claim C5 as stated fails when a recording is stored: in an idle session holding a
  one-record recording, \<open>startPlayback([])\<close> reports a started playback and sets
  the playing flag.
\<close>

theorem C5_counterexample:
  "\<not> isRecording (initialTAS\<lparr>recording := [leftFrame]\<rparr>) \<and>
   \<not> isPlaying (initialTAS\<lparr>recording := [leftFrame]\<rparr>) \<and>
   fst (startPlayback (\<lambda>t. Throws) (ArrayArg []) (initialTAS\<lparr>recording := [leftFrame]\<rparr>)) =
     PlaybackStarted \<and>
   isPlaying (snd (startPlayback (\<lambda>t. Throws) (ArrayArg []) (initialTAS\<lparr>recording := [leftFrame]\<rparr>))) \<and>
   snd (startPlayback (\<lambda>t. Throws) (ArrayArg []) (initialTAS\<lparr>recording := [leftFrame]\<rparr>)) \<noteq>
     initialTAS\<lparr>recording := [leftFrame]\<rparr>"
  by (simp add: startPlayback_def hookGameTick_def initialTAS_def Let_def)

section \<open>Round trip of the serialized format\<close>

lemma of_char_digitChar: "d < 10 \<Longrightarrow> (of_char (digitChar d) :: nat) = 48 + d"
  by (simp add: digitChar_def)

lemma isDigit_digitChar: "d < 10 \<Longrightarrow> isDigit (digitChar d)"
  by (simp add: isDigit_def of_char_digitChar)

lemma digitChar_zero: "d < 10 \<Longrightarrow> digitChar d = CHR ''0'' \<longleftrightarrow> d = 0"
proof -
  assume d: "d < 10"
  have "digitChar d = CHR ''0'' \<longleftrightarrow> (of_char (digitChar d) :: nat) = of_char CHR ''0''"
    by (rule of_char_eq_iff [symmetric])
  also have "\<dots> \<longleftrightarrow> d = 0" using d by (simp add: of_char_digitChar)
  finally show ?thesis .
qed

lemma showNat_digits: "list_all isDigit (showNat n)"
  by (induction n rule: showNat.induct) (subst showNat.simps, simp add: isDigit_digitChar)

lemma showNat_nonempty: "showNat n \<noteq> []"
  by (subst showNat.simps) simp

lemma showNat_hd: "hd (showNat n) = CHR ''0'' \<longleftrightarrow> n = 0"
proof (induction n rule: showNat.induct)
  case (1 n)
  show ?case
  proof (cases "n < 10")
    case True
    then show ?thesis by (subst showNat.simps) (simp add: digitChar_zero)
  next
    case False
    then have "hd (showNat n) = hd (showNat (n div 10))"
      by (subst showNat.simps) (simp add: showNat_nonempty)
    with 1 False show ?thesis by simp
  qed
qed

lemma showNat_value: "foldl (\<lambda>a c. 10 * a + (of_char c - 48)) 0 (showNat n) = n"
proof (induction n rule: showNat.induct)
  case (1 n)
  show ?case
  proof (cases "n < 10")
    case True
    then show ?thesis by (subst showNat.simps) (simp add: of_char_digitChar)
  next
    case False
    with 1 show ?thesis by (subst showNat.simps) (simp add: of_char_digitChar)
  qed
qed

lemma showNat_length: "length (showNat n) > 1 \<Longrightarrow> n \<noteq> 0"
  by (subst (asm) showNat.simps) (auto split: if_splits)

lemma parseNat_showNat: "parseNat (showNat n) = Some n"
  using showNat_length [of n]
  by (auto simp add: parseNat_def showNat_digits showNat_nonempty showNat_hd showNat_value)

lemma showNat_not_minus: "hd (showNat n) \<noteq> CHR ''-''"
proof -
  have "isDigit (hd (showNat n))"
    using showNat_digits [of n] showNat_nonempty [of n] by (cases "showNat n") simp_all
  then show ?thesis by (auto simp: isDigit_def)
qed

lemma parseInt_showInt: "parseInt (showInt i) = Some i"
proof (cases "i < 0")
  case True
  then show ?thesis by (simp add: showInt_def parseInt_def parseNat_showNat)
next
  case False
  obtain c cs where cs: "showNat (nat i) = c # cs"
    using showNat_nonempty [of "nat i"] by (cases "showNat (nat i)") auto
  with showNat_not_minus [of "nat i"] have "c \<noteq> CHR ''-''" by simp
  with False cs parseNat_showNat [of "nat i"] show ?thesis
    by (simp add: showInt_def parseInt_def)
qed

lemma punct_chars: "punct c = Some t \<Longrightarrow> c \<in> set ''[]{},:''"
  by (simp add: punct_def split: if_splits)

lemma punct_not_digit: "c \<in> set ''[]{},:'' \<Longrightarrow> \<not> isDigit c"
  by (auto simp: isDigit_def)

lemma quote_not_digit: "\<not> isDigit CHR 0x22"
  by (simp add: isDigit_def)

lemma isDigit_word: "isDigit c \<Longrightarrow> c \<noteq> CHR 0x22 \<and> punct c = None"
  using punct_chars punct_not_digit quote_not_digit by (cases "punct c") auto

lemma minus_word: "punct CHR ''-'' = None"
  by (simp add: punct_def)

lemma showNat_word: "c \<in> set (showNat n) \<Longrightarrow> c \<noteq> CHR 0x22 \<and> punct c = None"
  using showNat_digits [of n] isDigit_word by (simp add: list_all_iff)

lemma showInt_word: "c \<in> set (showInt i) \<Longrightarrow> c \<noteq> CHR 0x22 \<and> punct c = None"
  using showNat_word minus_word by (auto simp: showInt_def split: if_splits)

lemma showInt_hd: "\<exists>c cs. showInt i = c # cs \<and> (isDigit c \<or> c = CHR ''-'')"
proof (cases "i < 0")
  case True
  then show ?thesis by (simp add: showInt_def)
next
  case False
  obtain c cs where cs: "showNat (nat i) = c # cs"
    using showNat_nonempty [of "nat i"] by (cases "showNat (nat i)") auto
  with showNat_digits [of "nat i"] False show ?thesis by (simp add: showInt_def)
qed

lemma letters_not_digit:
  "\<not> isDigit CHR ''t''" "\<not> isDigit CHR ''f''" "\<not> isDigit CHR ''n''"
  by (simp_all add: isDigit_def)

lemma showInt_not_literal:
  "showInt i \<noteq> ''true''" "showInt i \<noteq> ''false''" "showInt i \<noteq> ''null''"
  using showInt_hd [of i] letters_not_digit by auto

lemma wordValue_valueText: "serializable v \<Longrightarrow> wordValue (valueText v) = Some v"
  by (cases v) (simp_all add: valueText_def wordValue_def showInt_not_literal parseInt_showInt)

lemma valueText_word:
  "serializable v \<Longrightarrow> c \<in> set (valueText v) \<Longrightarrow> c \<noteq> CHR 0x22 \<and> punct c = None"
proof (cases v)
  case (Bool b)
  assume "c \<in> set (valueText v)"
  with Bool have "c \<in> set ''truefalse''" by (cases b) (auto simp: valueText_def)
  then show ?thesis by (auto simp: punct_def)
next
  case Null
  assume "c \<in> set (valueText v)"
  with Null have "c \<in> set ''null''" by (simp add: valueText_def)
  then show ?thesis by (auto simp: punct_def)
next
  case (Num n)
  assume "c \<in> set (valueText v)"
  with Num show ?thesis using showInt_word [of c n] by (simp add: valueText_def)
qed simp_all

lemma showInt_nonempty: "showInt i \<noteq> []"
  using showInt_hd [of i] by auto

lemma valueText_nonempty: "serializable v \<Longrightarrow> valueText v \<noteq> []"
  by (cases v) (auto simp: valueText_def showInt_nonempty)


lemma flushWord_nonempty: "w \<noteq> [] \<Longrightarrow> flushWord w = [TWord w]"
  by (simp add: flushWord_def)

lemma lex_word:
  assumes "\<forall>c \<in> set w. c \<noteq> CHR 0x22 \<and> punct c = None" and "punct d = Some t"
  shows "lexer (Outside a) (w @ d # rest) =
           map_option (\<lambda>ts. flushWord (a @ w) @ t # ts) (lexer (Outside []) rest)"
  using assms
proof (induction w arbitrary: a)
  case Nil
  have "d \<noteq> CHR 0x22" using Nil(2) by (auto simp: punct_def)
  with Nil show ?case by simp
next
  case (Cons c w)
  then show ?case by simp
qed

lemma lex_punct:
  assumes "punct d = Some t"
  shows "lexer (Outside []) (d # rest) = map_option (\<lambda>ts. t # ts) (lexer (Outside []) rest)"
  using lex_word [of "[]" d t "[]" rest] assms by (simp add: flushWord_def)

lemma lex_key:
  assumes "list_all plainChar k"
  shows "lexer (Inside a) (k @ CHR 0x22 # rest) =
           map_option (\<lambda>ts. TString (a @ k) # ts) (lexer (Outside []) rest)"
  using assms
proof (induction k arbitrary: a)
  case Nil
  then show ?case by simp
next
  case (Cons c k)
  then have "c \<noteq> CHR 0x22" by (simp add: plainChar_def)
  with Cons show ?case by simp
qed

lemma escapeChar_plain: "plainChar c \<Longrightarrow> escapeChar c = [c]"
  by (auto simp: escapeChar_def plainChar_def)

lemma quoteString_plain:
  "list_all plainChar k \<Longrightarrow> quoteString k = CHR 0x22 # k @ [CHR 0x22]"
  by (induction k) (simp_all add: quoteString_def escapeChar_plain)

lemma lex_quote: "lexer (Outside []) (CHR 0x22 # rest) = lexer (Inside []) rest"
  by simp

declare lexer.simps [simp del]

lemma lex_member:
  assumes "wfMember m" and "punct d = Some t"
  shows "lexer (Outside []) (memberText m @ d # rest) =
           map_option (\<lambda>ts. memberTokens m @ t # ts) (lexer (Outside []) rest)"
proof -
  obtain k v where m: "m = (k, v)" by (cases m)
  from assms(1) m have k: "list_all plainChar k" and v: "serializable v"
    by (simp_all add: wfMember_def plainKey_def)
  have colon: "punct CHR '':'' = Some TColon" by (simp add: punct_def)
  have w: "\<forall>c \<in> set (valueText v). c \<noteq> CHR 0x22 \<and> punct c = None"
    using valueText_word [OF v] by blast
  have "lexer (Outside []) (memberText m @ d # rest) =
          lexer (Inside []) (k @ CHR 0x22 # CHR '':'' # valueText v @ d # rest)"
    by (simp add: m memberText_def quoteString_plain [OF k] lex_quote)
  also have "\<dots> = map_option (\<lambda>ts. TString k # ts)
                      (lexer (Outside []) (CHR '':'' # valueText v @ d # rest))"
    using lex_key [OF k, of "[]"] by simp
  also have "lexer (Outside []) (CHR '':'' # valueText v @ d # rest) =
               map_option (\<lambda>ts. TColon # ts) (lexer (Outside []) (valueText v @ d # rest))"
    by (rule lex_punct [OF colon])
  also have "lexer (Outside []) (valueText v @ d # rest) =
               map_option (\<lambda>ts. TWord (valueText v) # t # ts) (lexer (Outside []) rest)"
    using lex_word [OF w assms(2), of "[]" rest] valueText_nonempty [OF v]
    by (simp add: flushWord_def)
  finally show ?thesis
    by (simp add: m memberTokens_def option.map_comp comp_def)
qed

lemma joinWith_Cons: "xs \<noteq> [] \<Longrightarrow> joinWith c (x # xs) = x @ c # joinWith c xs"
  by (cases xs) simp_all

lemma joinTokens_Cons: "xs \<noteq> [] \<Longrightarrow> joinTokens (x # xs) = x @ TComma # joinTokens xs"
  by (cases xs) simp_all

lemma lex_members:
  assumes "ms \<noteq> []" and "list_all wfMember ms" and "punct d = Some t"
  shows "lexer (Outside []) (joinWith CHR '','' (map memberText ms) @ d # rest) =
           map_option (\<lambda>ts. joinTokens (map memberTokens ms) @ t # ts)
             (lexer (Outside []) rest)"
  using assms(1,2)
proof (induction ms rule: list_nonempty_induct)
  case (single m)
  then show ?case using lex_member [OF _ assms(3), of m rest] by simp
next
  case (cons m ms)
  have comma: "punct CHR '','' = Some TComma" by (simp add: punct_def)
  from cons have m: "wfMember m" and ms: "list_all wfMember ms" by simp_all
  have "lexer (Outside []) (joinWith CHR '','' (map memberText (m # ms)) @ d # rest) =
          lexer (Outside [])
            (memberText m @ CHR '','' # (joinWith CHR '','' (map memberText ms) @ d # rest))"
    using cons.hyps by (simp add: joinWith_Cons)
  also have "\<dots> = map_option (\<lambda>ts. memberTokens m @ TComma # ts)
      (lexer (Outside []) (joinWith CHR '','' (map memberText ms) @ d # rest))"
    by (rule lex_member [OF m comma])
  finally show ?case
    using cons.IH [OF ms] cons.hyps
    by (simp add: joinTokens_Cons option.map_comp comp_def)
qed

lemma stringifyMembers_wf:
  "list_all wfMember obj \<Longrightarrow> stringifyMembers obj = map memberText obj"
proof (induction obj)
  case Nil
  then show ?case by (simp add: stringifyMembers_def)
next
  case (Cons m obj)
  obtain k v where m: "m = (k, v)" by (cases m)
  with Cons.prems have "serializable v" by (simp add: wfMember_def)
  then have "stringifyValue v = Some (valueText v)"
    by (cases v) (simp_all add: valueText_def)
  with Cons m show ?case
    by (simp add: stringifyMembers_def memberText_def)
qed

lemma lex_object:
  assumes "wfObject obj" and "punct d = Some t"
  shows "lexer (Outside []) (stringifyObject obj @ d # rest) =
           map_option (\<lambda>ts. objectTokens obj @ t # ts) (lexer (Outside []) rest)"
proof -
  have lb: "punct CHR ''{'' = Some TLBrace" and rb: "punct CHR ''}'' = Some TRBrace"
    by (simp_all add: punct_def)
  from assms(1) have wf: "list_all wfMember obj" by (simp add: wfObject_def)
  have tail: "lexer (Outside []) (CHR ''}'' # d # rest) =
               map_option (\<lambda>ts. TRBrace # t # ts) (lexer (Outside []) rest)"
    by (simp add: lex_punct [OF rb] lex_punct [OF assms(2)] option.map_comp comp_def)
  have body: "lexer (Outside []) (joinWith CHR '','' (map memberText obj) @ CHR ''}'' # d # rest) =
          map_option (\<lambda>ts. joinTokens (map memberTokens obj) @ TRBrace # t # ts)
            (lexer (Outside []) rest)"
  proof (cases "obj = []")
    case True
    then show ?thesis using tail by simp
  next
    case False
    show ?thesis
      by (simp add: lex_members [OF False wf rb] lex_punct [OF assms(2)]
            option.map_comp comp_def)
  qed
  have "lexer (Outside []) (stringifyObject obj @ d # rest) =
          map_option (\<lambda>ts. TLBrace # ts)
            (lexer (Outside []) (joinWith CHR '','' (map memberText obj) @ CHR ''}'' # d # rest))"
    by (simp add: stringifyObject_def stringifyMembers_wf [OF wf] lex_punct [OF lb])
  with body show ?thesis
    by (simp add: objectTokens_def option.map_comp comp_def)
qed

lemma lex_objects:
  assumes "xs \<noteq> []" and "list_all wfObject xs" and "punct d = Some t"
  shows "lexer (Outside []) (joinWith CHR '','' (map stringifyObject xs) @ d # rest) =
           map_option (\<lambda>ts. joinTokens (map objectTokens xs) @ t # ts)
             (lexer (Outside []) rest)"
  using assms(1,2)
proof (induction xs rule: list_nonempty_induct)
  case (single x)
  then show ?case using lex_object [OF _ assms(3), of x rest] by simp
next
  case (cons x xs)
  have comma: "punct CHR '','' = Some TComma" by (simp add: punct_def)
  from cons have x: "wfObject x" and xs: "list_all wfObject xs" by simp_all
  have "lexer (Outside []) (joinWith CHR '','' (map stringifyObject (x # xs)) @ d # rest) =
          lexer (Outside [])
            (stringifyObject x @ CHR '','' #
               (joinWith CHR '','' (map stringifyObject xs) @ d # rest))"
    using cons.hyps by (simp add: joinWith_Cons)
  also have "\<dots> = map_option (\<lambda>ts. objectTokens x @ TComma # ts)
      (lexer (Outside []) (joinWith CHR '','' (map stringifyObject xs) @ d # rest))"
    by (rule lex_object [OF x comma])
  finally show ?case
    using cons.IH [OF xs] cons.hyps
    by (simp add: joinTokens_Cons option.map_comp comp_def)
qed

lemma lex_stringify:
  assumes "wfSequence xs"
  shows "lexer (Outside []) (JSON_stringify xs) =
           Some (TLBracket # joinTokens (map objectTokens xs) @ [TRBracket])"
proof -
  have lb: "punct CHR ''['' = Some TLBracket" and rb: "punct CHR '']'' = Some TRBracket"
    by (simp_all add: punct_def)
  have tail: "lexer (Outside []) '']'' = Some [TRBracket]"
    by (simp add: lexer.simps punct_def flushWord_def)
  have body: "lexer (Outside []) (joinWith CHR '','' (map stringifyObject xs) @ '']'') =
                Some (joinTokens (map objectTokens xs) @ [TRBracket])"
  proof (cases "xs = []")
    case True
    then show ?thesis using tail by simp
  next
    case False
    from assms have "list_all wfObject xs" by (simp add: wfSequence_def)
    from lex_objects [OF False this rb, of "[]"] show ?thesis
      by (simp add: lexer.simps flushWord_def)
  qed
  have "lexer (Outside []) (JSON_stringify xs) =
          map_option (\<lambda>ts. TLBracket # ts)
            (lexer (Outside []) (joinWith CHR '','' (map stringifyObject xs) @ '']''))"
    by (simp add: JSON_stringify_def lex_punct [OF lb])
  with body show ?thesis by simp
qed

lemma update_fresh: "k \<notin> fst ` set al \<Longrightarrow> AList.update k v al = al @ [(k, v)]"
  by (induction al) auto

lemma parse_member:
  assumes "wfMember m"
  shows "parseElements acc (InObject obj) (memberTokens m @ ts) =
           parseElements acc (AfterMember (AList.update (fst m) (snd m) obj)) ts"
  using assms
  by (simp add: memberTokens_def parseStep_def wfMember_def plainKey_def wordValue_valueText)

lemma parse_members:
  assumes "ms \<noteq> []"
  shows "list_all wfMember ms \<Longrightarrow> distinct (map fst (pre @ ms)) \<Longrightarrow>
         parseElements acc (InObject pre) (joinTokens (map memberTokens ms) @ TRBrace # ts) =
           parseElements (acc @ [pre @ ms]) AfterObject ts"
  using assms
proof (induction ms arbitrary: pre rule: list_nonempty_induct)
  case (single m)
  from single have fresh: "fst m \<notin> fst ` set pre" by auto
  from single show ?case
    by (simp add: parse_member parseStep_def update_fresh [OF fresh])
next
  case (cons m ms)
  from cons.prems have fresh: "fst m \<notin> fst ` set pre" by auto
  from cons.prems have m: "wfMember m" and ms: "list_all wfMember ms"
    and d: "distinct (map fst ((pre @ [m]) @ ms))" by simp_all
  have "parseElements acc (InObject pre)
          (joinTokens (map memberTokens (m # ms)) @ TRBrace # ts) =
        parseElements acc (InObject pre)
          (memberTokens m @ TComma # joinTokens (map memberTokens ms) @ TRBrace # ts)"
    using cons.hyps by (simp add: joinTokens_Cons)
  also have "\<dots> = parseElements acc (InObject (pre @ [m]))
                      (joinTokens (map memberTokens ms) @ TRBrace # ts)"
    by (simp add: parse_member [OF m] parseStep_def update_fresh [OF fresh])
  also have "\<dots> = parseElements (acc @ [(pre @ [m]) @ ms]) AfterObject ts"
    by (rule cons.IH [OF ms d])
  finally show ?case by simp
qed

lemma parse_object:
  assumes "wfObject obj"
  shows "parseElements acc ExpectObject (objectTokens obj @ ts) =
           parseElements (acc @ [obj]) AfterObject ts"
proof (cases "obj = []")
  case True
  then show ?thesis by (simp add: objectTokens_def parseStep_def)
next
  case False
  from assms have "list_all wfMember obj" "distinct (map fst ([] @ obj))"
    by (simp_all add: wfObject_def)
  from parse_members [OF False this, of acc ts] show ?thesis
    by (simp add: objectTokens_def parseStep_def)
qed

lemma parse_objects:
  assumes "xs \<noteq> []"
  shows "list_all wfObject xs \<Longrightarrow>
         parseElements acc ExpectObject (joinTokens (map objectTokens xs) @ [TRBracket]) =
           Some (acc @ xs)"
  using assms
proof (induction xs arbitrary: acc rule: list_nonempty_induct)
  case (single x)
  then show ?case by (simp add: parse_object parseStep_def)
next
  case (cons x xs)
  from cons.prems have x: "wfObject x" and xs: "list_all wfObject xs" by simp_all
  have "parseElements acc ExpectObject (joinTokens (map objectTokens (x # xs)) @ [TRBracket]) =
        parseElements acc ExpectObject
          (objectTokens x @ TComma # joinTokens (map objectTokens xs) @ [TRBracket])"
    using cons.hyps by (simp add: joinTokens_Cons)
  also have "\<dots> = parseElements (acc @ [x]) ExpectObject
                      (joinTokens (map objectTokens xs) @ [TRBracket])"
    by (simp add: parse_object [OF x] parseStep_def)
  also have "\<dots> = Some ((acc @ [x]) @ xs)"
    by (rule cons.IH [OF xs])
  finally show ?case by simp
qed

lemma objectTokens_hd: "\<exists>ts. objectTokens obj = TLBrace # ts"
  by (simp add: objectTokens_def)

lemma joinTokens_objects_hd:
  "xs \<noteq> [] \<Longrightarrow> \<exists>ts. joinTokens (map objectTokens xs) = TLBrace # ts"
proof (cases xs)
  case Nil
  assume "xs \<noteq> []"
  with Nil show ?thesis by simp
next
  case (Cons x ys)
  show ?thesis
  proof (cases "ys = []")
    case True
    with Cons show ?thesis by (simp add: objectTokens_def)
  next
    case False
    with Cons show ?thesis by (simp add: joinTokens_Cons objectTokens_def)
  qed
qed

lemma stringify_can_start: "\<not> cannotStart (JSON_stringify xs)"
  by (simp add: cannotStart_def JSON_stringify_def valueStart_def)

lemma JSON_roundtrip:
  assumes "wfSequence xs"
  shows "JSON_parse (JSON_stringify xs) = Some (ReturnsFrames xs)"
proof (cases "xs = []")
  case True
  with lex_stringify [OF assms] show ?thesis
    by (simp add: JSON_parse_def stringify_can_start)
next
  case False
  from joinTokens_objects_hd [OF False] obtain ts
    where ts: "joinTokens (map objectTokens xs) = TLBrace # ts" by blast
  from assms have "list_all wfObject xs" by (simp add: wfSequence_def)
  from parse_objects [OF False this, of "[]"] ts lex_stringify [OF assms] show ?thesis
    by (simp add: JSON_parse_def stringify_can_start)
qed

lemma parseOr_roundtrip:
  assumes "wfSequence xs"
  shows "parseOr rest (JSON_stringify xs) = ReturnsFrames xs"
  by (simp add: parseOr_def JSON_roundtrip [OF assms])

lemma letter_plain:
  "c \<in> set ''framelightupdowncsIn'' \<Longrightarrow> plainChar c \<and> \<not> isDigit c"
  by (auto simp: plainChar_def isDigit_def)

lemma frame_keys_plain:
  assumes "k \<in> set (''hasInput'' # ''frame'' # inputFields)"
  shows "plainKey k"
proof -
  from assms have sub: "set k \<subseteq> set ''framelightupdowncsIn''" and ne: "k \<noteq> []"
    by (auto simp: inputFields_def)
  from sub letter_plain have "list_all plainChar k" and nd: "\<not> list_all isDigit k"
    using ne by (cases k; auto simp: list_all_iff)+
  then show ?thesis by (simp add: plainKey_def indexKey_def parseNat_def)
qed

lemma getProp_member: "distinct (map fst f) \<Longrightarrow> (k, v) \<in> set f \<Longrightarrow> getProp f k = v"
  by (simp add: getProp_def)

lemma frameRecord_wf:
  assumes "frameRecord f"
  shows "wfObject f"
proof -
  from assms have d: "distinct (map fst f)"
    and keys: "set (map fst f) = set (''frame'' # inputFields)"
    and n: "isNum (getProp f ''frame'')"
    and b: "\<forall>k \<in> set inputFields. isBool (getProp f k)"
    by (simp_all add: frameRecord_def list_all_iff)
  have "wfMember m" if m: "m \<in> set f" for m
  proof -
    obtain k v where kv: "m = (k, v)" by (cases m)
    with m have "k \<in> set (map fst f)" by force
    with keys have k: "k \<in> set (''frame'' # inputFields)" by simp
    from m kv d have v: "getProp f k = v" by (simp add: getProp_member)
    from k n b v have "isNum v \<or> isBool v" by auto
    then have "serializable v" by (cases v) simp_all
    moreover from k have "plainKey k" by (simp add: frame_keys_plain)
    ultimately show ?thesis by (simp add: kv wfMember_def)
  qed
  with d show ?thesis by (simp add: wfObject_def list_all_iff)
qed

lemma frameRecordWithHasInput_wf:
  assumes "frameRecordWithHasInput f"
  shows "wfObject f"
proof -
  from assms have keys: "map fst f = ''frame'' # inputFields @ [''hasInput'']"
    and n: "isNum (getProp f ''frame'')"
    and b: "\<forall>k \<in> set inputFields. isBool (getProp f k)"
    and h: "isBool (getProp f ''hasInput'')"
    by (simp_all add: frameRecordWithHasInput_def list_all_iff)
  from keys have d: "distinct (map fst f)" by (simp add: inputFields_def)
  have "wfMember m" if m: "m \<in> set f" for m
  proof -
    obtain k v where kv: "m = (k, v)" by (cases m)
    with m have "k \<in> set (map fst f)" by force
    with keys have k: "k \<in> set (''hasInput'' # ''frame'' # inputFields)" by auto
    from m kv d have v: "getProp f k = v" by (simp add: getProp_member)
    from k n b h v have "isNum v \<or> isBool v" by auto
    then have "serializable v" by (cases v) simp_all
    moreover from k have "plainKey k" by (rule frame_keys_plain)
    ultimately show ?thesis by (simp add: kv wfMember_def)
  qed
  with d show ?thesis by (simp add: wfObject_def list_all_iff)
qed

text \<open>
  Claim C4. For every sequence \<open>S\<close> of frame records (with or without the
  \<open>hasInput\<close> field the recorder of part\_000 adds), parsing the text
  \<open>JSON.stringify\<close> writes for \<open>S\<close> gives \<open>S\<close> back, record for record
  and field for field; so \<open>importRecording\<close> applied to what
  \<open>exportRecording\<close> returns for a session holding \<open>S\<close> succeeds and stores
  exactly \<open>S\<close>, in part\_000 and in the event-dispatch module.
\<close>

theorem C4_export_import_roundtrip:
  assumes "list_all (\<lambda>f. frameRecord f \<or> frameRecordWithHasInput f) S"
  shows "JSON_parse (JSON_stringify S) = Some (ReturnsFrames S) \<and>
         importRecording (parseOr rest)
           (StringArg (exportRecording JSON_stringify (s\<lparr>recording := S\<rparr>))) s' =
             (True, Intact (s'\<lparr>recording := S\<rparr>)) \<and>
         importRecording_ev (parseOr rest)
           (StringArg (exportRecording_ev JSON_stringify (e\<lparr>recording_ev := S\<rparr>))) e' =
             (True, Intact (e'\<lparr>recording_ev := S\<rparr>))"
proof -
  from assms have wf: "wfSequence S"
    by (auto simp: wfSequence_def list_all_iff frameRecord_wf frameRecordWithHasInput_wf)
  then have "JSON_parse (JSON_stringify S) = Some (ReturnsFrames S)" by (rule JSON_roundtrip)
  then show ?thesis
    by (simp add: importRecording_def importRecording_ev_def exportRecording_def
          exportRecording_ev_def parseOr_roundtrip [OF wf])
qed

lemma leftFrame_frameRecord: "frameRecord leftFrame"
  by (simp add: frameRecord_def leftFrame_def inputFields_def getProp_def)

theorem C4_export_import_roundtrip_witness:
  "list_all (\<lambda>f. frameRecord f \<or> frameRecordWithHasInput f) [leftFrame, leftFrame] \<and>
   JSON_parse (JSON_stringify [leftFrame, leftFrame]) =
     Some (ReturnsFrames [leftFrame, leftFrame]) \<and>
   importRecording (parseOr (\<lambda>t. Throws))
     (StringArg (exportRecording JSON_stringify (initialTAS\<lparr>recording := [leftFrame, leftFrame]\<rparr>)))
     initialTAS = (True, Intact (initialTAS\<lparr>recording := [leftFrame, leftFrame]\<rparr>))"
  using C4_export_import_roundtrip
    [of "[leftFrame, leftFrame]" "\<lambda>t. Throws" initialTAS initialTAS]
  by (simp add: leftFrame_frameRecord)

section \<open>Decode failure and replacement of the stored sequence\<close>

lemma parse_oops: "JSON_parse ''oops'' = Some Throws"
  by (simp add: JSON_parse_def cannotStart_def valueStart_def)

lemma parse_empty_object: "JSON_parse ''{}'' = Some (ReturnsNonArray (Object []))"
  by (simp add: JSON_parse_def cannotStart_def valueStart_def lexer.simps punct_def
        flushWord_def parseStep_def)

lemma parse_null: "JSON_parse ''null'' = Some (ReturnsNonArray (Scalar Null))"
  by (simp add: JSON_parse_def cannotStart_def valueStart_def lexer.simps punct_def
        flushWord_def wordValue_def)

text \<open>
  Claim C6, as the code has it. The only decoding failure the code detects is
  \<open>JSON.parse\<close> throwing. When it throws on the text, \<open>startPlayback\<close> reports
  the parse failure and \<open>importRecording\<close> returns false; both return normally and
  leave the whole session state as it was, in part\_000 and in the event-dispatch module.
\<close>

theorem C6_decode_failure:
  assumes "parse text = Throws"
  shows "startPlayback parse (StringArg text) s = (ParseFailed, s) \<and>
         importRecording parse (StringArg text) s = (False, Intact s) \<and>
         startPlayback_ev parse (StringArg text) e = (ParseFailed, e) \<and>
         importRecording_ev parse (StringArg text) e = (False, Intact e)"
  using assms
  by (simp add: startPlayback_def importRecording_def startPlayback_ev_def
        importRecording_ev_def)

theorem C6_decode_failure_witness:
  "parseOr (\<lambda>t. ReturnsFrames []) ''oops'' = Throws \<and>
   startPlayback (parseOr (\<lambda>t. ReturnsFrames [])) (StringArg ''oops'')
     (initialTAS\<lparr>recording := [leftFrame]\<rparr>) =
     (ParseFailed, initialTAS\<lparr>recording := [leftFrame]\<rparr>) \<and>
   importRecording (parseOr (\<lambda>t. ReturnsFrames [])) (StringArg ''oops'')
     (initialTAS\<lparr>recording := [leftFrame]\<rparr>) =
     (False, Intact (initialTAS\<lparr>recording := [leftFrame]\<rparr>)) \<and>
   startPlayback_ev (parseOr (\<lambda>t. ReturnsFrames [])) (StringArg ''oops'') initialTAS_ev =
     (ParseFailed, initialTAS_ev) \<and>
   importRecording_ev (parseOr (\<lambda>t. ReturnsFrames [])) (StringArg ''oops'') initialTAS_ev =
     (False, Intact initialTAS_ev)"
proof -
  have h: "parseOr (\<lambda>t. ReturnsFrames []) ''oops'' = Throws"
    by (simp add: parseOr_def parse_oops)
  show ?thesis
    using h C6_decode_failure [of "parseOr (\<lambda>t. ReturnsFrames [])" "''oops''"
        "initialTAS\<lparr>recording := [leftFrame]\<rparr>" initialTAS_ev]
    by simp
qed

text \<open>
  Claim C6 as stated fails for a string that parses but is not a sequence. The text
  \<open>{}\<close> parses to an object: on a session holding a one-record recording,
  \<open>startPlayback\<close> reports no failure and starts playing the stored recording, and
  \<open>importRecording\<close> returns true and stores the object in place of the recording.
\<close>

theorem C6_counterexample:
  "JSON_parse ''{}'' = Some (ReturnsNonArray (Object [])) \<and>
   fst (startPlayback (parseOr (\<lambda>t. Throws)) (StringArg ''{}'')
     (initialTAS\<lparr>recording := [leftFrame]\<rparr>)) = PlaybackStarted \<and>
   isPlaying (snd (startPlayback (parseOr (\<lambda>t. Throws)) (StringArg ''{}'')
     (initialTAS\<lparr>recording := [leftFrame]\<rparr>))) \<and>
   importRecording (parseOr (\<lambda>t. Throws)) (StringArg ''{}'')
     (initialTAS\<lparr>recording := [leftFrame]\<rparr>) =
     (True, NonArray (Object []) (initialTAS\<lparr>recording := [leftFrame]\<rparr>)) \<and>
   fst (startPlayback_ev (parseOr (\<lambda>t. Throws)) (StringArg ''{}'')
     (initialTAS_ev\<lparr>recording_ev := [leftFrame]\<rparr>)) = PlaybackStarted \<and>
   importRecording_ev (parseOr (\<lambda>t. Throws)) (StringArg ''{}'')
     (initialTAS_ev\<lparr>recording_ev := [leftFrame]\<rparr>) =
     (True, NonArray (Object []) (initialTAS_ev\<lparr>recording_ev := [leftFrame]\<rparr>))"
  by (simp add: parse_empty_object parseOr_def startPlayback_def startPlayback_ev_def
        importRecording_def importRecording_ev_def hookGameTick_def hookGameTick_ev_def
        initialTAS_def initialTAS_ev_def Let_def)

text \<open>
  \<open>importRecording\<close> assigns the parsed value before it reads its length: for the
  text \<open>null\<close> it returns false and the stored recording is replaced by \<open>null\<close>.
\<close>

lemma importRecording_null:
  "importRecording (parseOr rest) (StringArg ''null'') s = (False, NonArray (Scalar Null) s) \<and>
   importRecording_ev (parseOr rest) (StringArg ''null'') e = (False, NonArray (Scalar Null) e)"
  by (simp add: parse_null parseOr_def importRecording_def importRecording_ev_def)

text \<open>
  Claim C10. A \<open>startPlayback\<close> with a non-empty array \<open>S\<close> succeeds and stores
  \<open>S\<close> in place of whatever was recorded: right afterwards \<open>getRecording\<close>
  returns \<open>S\<close> and \<open>exportRecording\<close> returns the text of \<open>S\<close>, in all
  three modules.
\<close>

theorem C10_playback_replaces_recording:
  assumes "S \<noteq> []"
  shows "fst (startPlayback parse (ArrayArg S) s) = PlaybackStarted \<and>
         getRecording (snd (startPlayback parse (ArrayArg S) s)) = S \<and>
         exportRecording stringify (snd (startPlayback parse (ArrayArg S) s)) = stringify S \<and>
         fst (startPlayback_ev parse (ArrayArg S) e) = PlaybackStarted \<and>
         getRecording_ev (snd (startPlayback_ev parse (ArrayArg S) e)) = S \<and>
         exportRecording_ev stringify (snd (startPlayback_ev parse (ArrayArg S) e)) = stringify S \<and>
         fst (startPlayback_legacy (Some S) s) = PlaybackStarted \<and>
         getRecording (snd (startPlayback_legacy (Some S) s)) = S \<and>
         exportRecording stringify (snd (startPlayback_legacy (Some S) s)) = stringify S"
  using assms
  by (simp add: startPlayback_def startPlayback_ev_def startPlayback_legacy_def Let_def
        hookGameTick_def hookGameTick_ev_def getRecording_def getRecording_ev_def
        exportRecording_def exportRecording_ev_def)

theorem C10_playback_replaces_recording_witness:
  "[leftFrame] \<noteq> [] \<and>
   getRecording (snd (startPlayback (parseOr (\<lambda>t. Throws)) (ArrayArg [leftFrame])
     (initialTAS\<lparr>recording := [leftFrame, leftFrame]\<rparr>))) = [leftFrame] \<and>
   exportRecording JSON_stringify (snd (startPlayback (parseOr (\<lambda>t. Throws)) (ArrayArg [leftFrame])
     (initialTAS\<lparr>recording := [leftFrame, leftFrame]\<rparr>))) = JSON_stringify [leftFrame] \<and>
   getRecording_ev (snd (startPlayback_ev (parseOr (\<lambda>t. Throws)) (ArrayArg [leftFrame]) initialTAS_ev)) =
     [leftFrame] \<and>
   getRecording (snd (startPlayback_legacy (Some [leftFrame]) initialTAS)) = [leftFrame]"
  using C10_playback_replaces_recording
    [of "[leftFrame]" "parseOr (\<lambda>t. Throws)"
        "initialTAS\<lparr>recording := [leftFrame, leftFrame]\<rparr>" JSON_stringify
        initialTAS_ev]
    C10_playback_replaces_recording [of "[leftFrame]" "parseOr (\<lambda>t. Throws)" initialTAS
        JSON_stringify
        initialTAS_ev]
  by simp

section \<open>Fields of frame records\<close>

lemma recordFrame_adds:
  "recording (recordFrame s) = recording s \<or>
   (\<exists>f. recording (recordFrame s) = recording s @ [f] \<and> frameRecordWithHasInput f)"
  by (auto simp: recordFrame_def Let_def getInputState_def frameRecordWithHasInput_def
        inputFields_def getProp_def split: option.splits)

lemma recordFrame_ev_adds:
  "recording_ev (recordFrame_ev s) = recording_ev s \<or>
   (\<exists>f. recording_ev (recordFrame_ev s) = recording_ev s @ [f] \<and>
        map fst f = ''frame'' # inputFields \<and> frameRecord f)"
  by (auto simp: recordFrame_ev_def Let_def getInputState_ev_def frameRecord_def
        inputFields_def getProp_def split: option.splits)

lemma hookedTick_records:
  assumes "list_all frameRecordWithHasInput (recording s)"
  shows "list_all frameRecordWithHasInput (recording (hookedTick h s))"
proof -
  have "recording (hookedTick h s) = recording (originalTick h s) \<or>
        recording (hookedTick h s) = recording (recordFrame (originalTick h s))"
    by (simp add: hookedTick_def Let_def)
  with recordFrame_adds [of "originalTick h s"] assms show ?thesis by auto
qed

lemma ticks_records:
  "list_all frameRecordWithHasInput (recording s) \<Longrightarrow>
   list_all frameRecordWithHasInput (recording (ticks hs s))"
  by (induction hs arbitrary: s) (simp_all add: hookedTick_records)

lemma hookedTick_ev_records:
  assumes "list_all (\<lambda>f. map fst f = ''frame'' # inputFields \<and> frameRecord f) (recording_ev s)"
  shows "list_all (\<lambda>f. map fst f = ''frame'' # inputFields \<and> frameRecord f)
           (recording_ev (hookedTick_ev h s))"
proof -
  let ?s1 = "s\<lparr>inputManager_ev := map_option h (inputManager_ev s)\<rparr>"
  have "recording_ev (hookedTick_ev h s) = recording_ev ?s1 \<or>
        recording_ev (hookedTick_ev h s) = recording_ev (recordFrame_ev ?s1)"
    by (simp add: hookedTick_ev_def Let_def)
  with recordFrame_ev_adds [of ?s1] assms show ?thesis by auto
qed

lemma ticks_ev_records:
  "list_all (\<lambda>f. map fst f = ''frame'' # inputFields \<and> frameRecord f) (recording_ev s) \<Longrightarrow>
   list_all (\<lambda>f. map fst f = ''frame'' # inputFields \<and> frameRecord f)
     (recording_ev (ticks_ev hs s))"
  by (induction hs arbitrary: s) (simp_all add: hookedTick_ev_records)

lemma setInputState_reads:
  assumes "\<forall>k \<in> set inputFields. truthy (getProp f k) = truthy (getProp g k)"
  shows "setInputState f s = setInputState g s"
    and "setInputState_ev f e = setInputState_ev g e"
  using assms by (simp_all add: setInputState_def setInputState_ev_def inputFields_def)

text \<open>
  Claim C9, as the code has it. Every record \<open>recordFrame\<close> appends has the
  \<open>frame\<close> index and the six boolean input fields; in the event-dispatch module it
  has exactly these, in part\_000 it has one more boolean field, \<open>hasInput\<close>, set
  when any of the six is. Playback does not check the records it is given:
  \<open>setInputState\<close> reads the six input fields of a record by truthiness and nothing
  else, so two records that agree there are played alike.
\<close>

theorem C9_frame_fields:
  "(\<forall>f \<in> set (fst (stopRecording (ticks hs (startRecording s)))). frameRecordWithHasInput f) \<and>
   (\<forall>f \<in> set (fst (stopRecording_ev (ticks_ev gs (startRecording_ev e)))).
      map fst f = ''frame'' # inputFields \<and> frameRecord f) \<and>
   ((\<forall>k \<in> set inputFields. truthy (getProp f k) = truthy (getProp g k)) \<longrightarrow>
      setInputState f s = setInputState g s \<and> setInputState_ev f e = setInputState_ev g e)"
proof -
  have "list_all frameRecordWithHasInput (recording (ticks hs (startRecording s)))"
    by (rule ticks_records) (simp add: startRecording_fields)
  moreover have "list_all (\<lambda>f. map fst f = ''frame'' # inputFields \<and> frameRecord f)
      (recording_ev (ticks_ev gs (startRecording_ev e)))"
    by (rule ticks_ev_records) (simp add: startRecording_ev_fields)
  ultimately show ?thesis
    using setInputState_reads(1) [of f g s] setInputState_reads(2) [of f g e]
    by (simp add: stopRecording_def stopRecording_ev_def list_all_iff)
qed

theorem C9_frame_fields_witness:
  "fst (stopRecording (ticks [(id, id)] (startRecording readyTAS))) =
     [[(''frame'', Num 0), (''left'', Bool False), (''right'', Bool False), (''up'', Bool False),
       (''down'', Bool False), (''action'', Bool False), (''cancel'', Bool False),
       (''hasInput'', Bool False)]] \<and>
   frameRecordWithHasInput (hd (fst (stopRecording (ticks [(id, id)] (startRecording readyTAS))))) \<and>
   frameRecord (hd (fst (stopRecording_ev (ticks_ev [id] (startRecording_ev readyTAS_ev))))) \<and>
   list_all (\<lambda>k. truthy (getProp leftFrame k) =
       truthy (getProp [(''left'', Num 1), (''note'', Str ''x'')] k)) inputFields \<and>
   setInputState leftFrame readyTAS = setInputState [(''left'', Num 1), (''note'', Str ''x'')] readyTAS"
proof -
  have r: "fst (stopRecording (ticks [(id, id)] (startRecording readyTAS))) =
     [[(''frame'', Num 0), (''left'', Bool False), (''right'', Bool False), (''up'', Bool False),
       (''down'', Bool False), (''action'', Bool False), (''cancel'', Bool False),
       (''hasInput'', Bool False)]]"
    by (simp add: stopRecording_def startRecording_def hookGameTick_def readyTAS_def
          initialTAS_def hookedTick_def originalTick_def recordFrame_def getInputState_def
          tbFlag_def Let_def)
  have e: "fst (stopRecording_ev (ticks_ev [id] (startRecording_ev readyTAS_ev))) \<noteq> []"
    by (simp add: stopRecording_ev_def startRecording_ev_def hookGameTick_ev_def
          readyTAS_ev_def initialTAS_ev_def hookedTick_ev_def recordFrame_ev_def
          getInputState_ev_def Let_def)
  have t: "\<forall>k \<in> set inputFields. truthy (getProp leftFrame k) =
       truthy (getProp [(''left'', Num 1), (''note'', Str ''x'')] k)"
    by (simp add: inputFields_def leftFrame_def getProp_def)
  show ?thesis
    using r e t [unfolded list_all_iff [symmetric]] t
      C9_frame_fields [of "[(id, id)]" readyTAS "[id]" readyTAS_ev leftFrame
        "[(''left'', Num 1), (''note'', Str ''x'')]"]
    by (simp add: hd_conv_nth)
qed

text \<open>
  Claim C9 as stated fails in part\_000: the record written on the first recorded tick
  carries an eighth field, \<open>hasInput\<close>, so it is not a record of exactly the frame
  index and the six input fields.
\<close>

theorem C9_counterexample:
  "map fst (hd (fst (stopRecording (ticks [(id, id)] (startRecording readyTAS))))) =
     [''frame'', ''left'', ''right'', ''up'', ''down'', ''action'', ''cancel'', ''hasInput''] \<and>
   \<not> frameRecord (hd (fst (stopRecording (ticks [(id, id)] (startRecording readyTAS)))))"
proof -
  let ?f = "[(''frame'', Num 0), (''left'', Bool False), (''right'', Bool False),
       (''up'', Bool False), (''down'', Bool False), (''action'', Bool False),
       (''cancel'', Bool False), (''hasInput'', Bool False)]"
  have r: "fst (stopRecording (ticks [(id, id)] (startRecording readyTAS))) = [?f]"
    by (simp add: stopRecording_def startRecording_def hookGameTick_def readyTAS_def
          initialTAS_def hookedTick_def originalTick_def recordFrame_def getInputState_def
          tbFlag_def Let_def)
  have "\<not> frameRecord ?f"
  proof
    assume "frameRecord ?f"
    then have "set (map fst ?f) = set (''frame'' # inputFields)"
      by (simp only: frameRecord_def)
    moreover have "''hasInput'' \<in> set (map fst ?f)" by simp
    ultimately have "''hasInput'' \<in> set (''frame'' # inputFields)" by (simp only:)
    then show False by (simp add: inputFields_def)
  qed
  with r show ?thesis by simp
qed

section \<open>Applying a full input state\<close>

lemma pressKey_withKeys: "pressKey k (withKeys s kh r ks) = withKeys s kh r (ks @ [k])"
  by (auto simp: pressKey_def withKeys_def fun_eq_iff)

lemma pressDirection_withKeys:
  "pressDirection d (withKeys s kh r ks) = withKeys s kh r (ks @ directionKey kh d)"
proof -
  have kh: "keyboardHandler (withKeys s kh r ks) =
      Some (kh\<lparr>Ob := (\<lambda>key. if key \<in> set ks then Some True else r key)\<rparr>)"
    by (simp add: withKeys_def)
  show ?thesis
    by (simp add: pressDirection_def kh directionKey_def pressKey_withKeys
          split: option.splits list.splits)
qed

lemma releaseAllKeys_withKeys:
  "keyboardHandler s = Some kh \<Longrightarrow>
   releaseAllKeys s = withKeys s kh (\<lambda>key. map_option (\<lambda>_. False) (Ob kh key)) []"
  by (simp add: releaseAllKeys_def withKeys_def)

lemma setInputState_bound:
  assumes "keyboardHandler s = Some kh"
  shows "setInputState v s =
           withKeys s kh (\<lambda>key. map_option (\<lambda>_. False) (Ob kh key)) (wantedKeys kh v)"
  by (simp add: setInputState_def Let_def releaseAllKeys_withKeys [OF assms]
        TAS_left_def TAS_right_def TAS_up_def TAS_down_def TAS_action_def TAS_cancel_def
        pressDirection_withKeys pressKey_withKeys wantedKeys_def)

lemma setInputState_unbound: "keyboardHandler s = None \<Longrightarrow> setInputState v s = s"
  by (simp add: setInputState_def Let_def releaseAllKeys_def pressKey_def pressDirection_def
        TAS_left_def TAS_right_def TAS_up_def TAS_down_def TAS_action_def TAS_cancel_def)

lemma wantedKeys_Ob: "wantedKeys (kh\<lparr>Ob := ob\<rparr>) v = wantedKeys kh v"
  by (simp add: wantedKeys_def directionKey_def)

lemma setInputState_twice: "setInputState v (setInputState v s) = setInputState v s"
proof (cases "keyboardHandler s")
  case None
  then show ?thesis by (simp add: setInputState_unbound)
next
  case (Some kh)
  let ?r = "\<lambda>key. map_option (\<lambda>_. False) (Ob kh key)"
  let ?kh' = "kh\<lparr>Ob := (\<lambda>key. if key \<in> set (wantedKeys kh v) then Some True else ?r key)\<rparr>"
  have one: "setInputState v s = withKeys s kh ?r (wantedKeys kh v)"
    by (rule setInputState_bound [OF Some])
  have kh': "keyboardHandler (withKeys s kh ?r (wantedKeys kh v)) = Some ?kh'"
    by (simp add: withKeys_def)
  have again: "(\<lambda>key. if key \<in> set (wantedKeys kh v) then Some True
                     else map_option (\<lambda>_. False)
                       (if key \<in> set (wantedKeys kh v) then Some True else ?r key)) =
               (\<lambda>key. if key \<in> set (wantedKeys kh v) then Some True else ?r key)"
    by (rule ext) (simp add: option.map_comp comp_def)
  show ?thesis
    unfolding one
    by (subst setInputState_bound [OF kh'])
       (simp add: withKeys_def wantedKeys_Ob again)
qed

lemma keyPressed_setInputState:
  assumes "keyboardHandler s = Some kh"
  shows "keyPressed (setInputState v s) k \<longleftrightarrow> k \<in> set (wantedKeys kh v)"
  by (cases "Ob kh k") (simp_all add: setInputState_bound [OF assms] withKeys_def keyPressed_def)

lemma getInputState_setInputState: "getInputState (setInputState v s) = getInputState s"
  by (simp add: getInputState_def)

text \<open>
  Claim C7, as the code has it. \<open>setInputState\<close> writes the keyboard handler's
  pressed-state object and nothing else. With the handler bound, the keys it leaves
  pressed are exactly the keys the state selects (for left, right, up, down and cancel
  the first key bound to the direction, else the fallback key; for action Enter, 13), every
  other key of the object is released and nothing of the earlier pressed state remains;
  with the handler unbound nothing changes. Applying a state twice gives the same session
  as applying it once. The direction flags \<open>getInputState\<close> reads from the input
  manager are not written.
\<close>

theorem C7_setInputState:
  "(keyboardHandler s = Some kh \<longrightarrow>
      (\<forall>k. keyPressed (setInputState v s) k \<longleftrightarrow> k \<in> set (wantedKeys kh v))) \<and>
   (keyboardHandler s = None \<longrightarrow> setInputState v s = s) \<and>
   setInputState v (setInputState v s) = setInputState v s \<and>
   getInputState (setInputState v s) = getInputState s"
  by (simp add: keyPressed_setInputState setInputState_unbound setInputState_twice
        getInputState_setInputState)

lemma wantedKeys_ready_left:
  "wantedKeys \<lparr>Ob = Map.empty,
       Ea = [(0, [37, 65]), (1, [39, 68]), (2, [38, 87]), (3, [40, 83]), (4, [32, 13]),
             (5, [8, 49, 46])]\<rparr> leftFrame = [37]"
  by (simp add: wantedKeys_def leftFrame_def getProp_def directionKey_def DIRECTION_LEFT_def)

theorem C7_setInputState_witness:
  "keyboardHandler readyTAS = Some \<lparr>Ob = Map.empty,
       Ea = [(0, [37, 65]), (1, [39, 68]), (2, [38, 87]), (3, [40, 83]), (4, [32, 13]),
             (5, [8, 49, 46])]\<rparr> \<and>
   (\<forall>k. keyPressed (setInputState leftFrame readyTAS) k \<longleftrightarrow> k = 37) \<and>
   keyboardHandler initialTAS = None \<and> setInputState leftFrame initialTAS = initialTAS \<and>
   setInputState leftFrame (setInputState leftFrame readyTAS) = setInputState leftFrame readyTAS"
proof -
  have b: "keyboardHandler readyTAS = Some \<lparr>Ob = Map.empty,
       Ea = [(0, [37, 65]), (1, [39, 68]), (2, [38, 87]), (3, [40, 83]), (4, [32, 13]),
             (5, [8, 49, 46])]\<rparr>"
    by (simp add: readyTAS_def initialTAS_def)
  have u: "keyboardHandler initialTAS = None" by (simp add: initialTAS_def)
  show ?thesis
    using b u wantedKeys_ready_left
      C7_setInputState [of readyTAS "\<lparr>Ob = Map.empty,
       Ea = [(0, [37, 65]), (1, [39, 68]), (2, [38, 87]), (3, [40, 83]), (4, [32, 13]),
             (5, [8, 49, 46])]\<rparr>" leftFrame]
      C7_setInputState [of initialTAS "\<lparr>Ob = Map.empty, Ea = []\<rparr>" leftFrame]
    by simp
qed

text \<open>
  Claim C7 as stated fails: after applying a state with \<open>left\<close> set, the input
  state read back by \<open>getInputState\<close> still has \<open>left\<close> clear; and while the
  keyboard handler is unbound, applying that state to a host that reports \<open>right\<close>
  changes nothing at all.
\<close>

theorem C7_counterexample:
  "truthy (getProp leftFrame ''left'') \<and>
   getInputState (setInputState leftFrame readyTAS) =
     Some \<lparr>left = False, right = False, up = False, down = False, action = False,
           cancel = False, vector = None\<rparr> \<and>
   getInputState (initialTAS\<lparr>inputManager := Some \<lparr>tb = [(1, Bool True)], ha = None\<rparr>\<rparr>) =
     Some \<lparr>left = False, right = True, up = False, down = False, action = False,
           cancel = False, vector = None\<rparr> \<and>
   setInputState leftFrame
       (initialTAS\<lparr>inputManager := Some \<lparr>tb = [(1, Bool True)], ha = None\<rparr>\<rparr>) =
     initialTAS\<lparr>inputManager := Some \<lparr>tb = [(1, Bool True)], ha = None\<rparr>\<rparr>"
  by (simp add: getInputState_def readyTAS_def initialTAS_def tbFlag_def leftFrame_def
        getProp_def setInputState_unbound)

section \<open>The array returned by the builder\<close>

lemma hold_deref:
  "deref (hold d n b st) r =
     (if r = b \<and> b < length st
      then deref st r @ holdFrames d (nat n) (currentFrame (st ! b)) else deref st r)"
  by (simp add: hold_def deref_def)

lemma wait_deref:
  "deref (wait n b st) r =
     (if r = b \<and> b < length st
      then deref st r @ waitFrames (nat n) (currentFrame (st ! b)) else deref st r)"
  by (simp add: wait_def deref_def)

lemma call_deref:
  "\<exists>ys. deref (call c b st) r = deref st r @ ys \<and> (r \<noteq> b \<longrightarrow> ys = [])"
  by (cases c)
     (simp_all add: hold_deref wait_deref builder_left_def builder_right_def builder_up_def
        builder_down_def builder_action_def builder_cancel_def)

lemma calls_deref:
  "\<exists>ys. deref (calls cs b st) r = deref st r @ ys \<and> (r \<noteq> b \<longrightarrow> ys = [])"
proof (induction cs arbitrary: st)
  case Nil
  then show ?case by simp
next
  case (Cons c cs)
  from call_deref [of c b st r] obtain ys
    where ys: "deref (call c b st) r = deref st r @ ys" "r \<noteq> b \<longrightarrow> ys = []" by blast
  from Cons [of "call c b st"] obtain zs
    where zs: "deref (calls cs b (call c b st)) r = deref (call c b st) r @ zs"
      "r \<noteq> b \<longrightarrow> zs = []" by blast
  from ys zs show ?case by simp
qed

lemma holdFrames_length: "length (holdFrames d n c) = n"
  by (induction n arbitrary: c) simp_all

lemma waitFrames_length: "length (waitFrames n c) = n"
  by (induction n arbitrary: c) simp_all

lemma callFrames_length: "length (callFrames x c) = callCount x"
  by (cases x) (simp_all add: holdFrames_length waitFrames_length)

lemma callsFrames_length: "length (callsFrames cs c) = sum_list (map callCount cs)"
  by (induction cs arbitrary: c) (simp_all add: callFrames_length)

lemma holdState_frame: "frameField (holdState d c) = Num (int c)"
  by (simp add: holdState_def Let_def frameField_def getProp_def)

lemma waitState_frame: "frameField (waitState c) = Num (int c)"
  by (simp add: waitState_def frameField_def getProp_def)

lemma holdFrames_numbered:
  "map frameField (holdFrames d n c) = map (\<lambda>i. Num (int i)) [c ..< c + n]"
proof (induction n arbitrary: c)
  case 0
  then show ?case by simp
next
  case (Suc n)
  have "[c ..< c + Suc n] = c # [Suc c ..< Suc c + n]" by (subst upt_rec) simp
  with Suc [of "Suc c"] show ?case by (simp add: holdState_frame)
qed

lemma waitFrames_numbered:
  "map frameField (waitFrames n c) = map (\<lambda>i. Num (int i)) [c ..< c + n]"
proof (induction n arbitrary: c)
  case 0
  then show ?case by simp
next
  case (Suc n)
  have "[c ..< c + Suc n] = c # [Suc c ..< Suc c + n]" by (subst upt_rec) simp
  with Suc [of "Suc c"] show ?case by (simp add: waitState_frame)
qed

lemma callFrames_numbered:
  "map frameField (callFrames x c) = map (\<lambda>i. Num (int i)) [c ..< c + callCount x]"
  by (cases x) (simp_all add: holdFrames_numbered waitFrames_numbered)

lemma upt_split: "[c ..< c + (m + n)] = [c ..< c + m] @ [c + m ..< c + m + n]"
  by (metis add.assoc le_add1 upt_add_eq_append)

lemma callsFrames_numbered:
  "map frameField (callsFrames cs c) =
     map (\<lambda>i. Num (int i)) [c ..< c + sum_list (map callCount cs)]"
proof (induction cs arbitrary: c)
  case Nil
  then show ?case by simp
next
  case (Cons x cs)
  show ?case
    using Cons [of "c + callCount x"]
    by (simp add: callFrames_numbered upt_split)
qed

lemma holdState_frameRecord: "frameRecord (holdState d c)"
  by (simp add: holdState_def Let_def frameRecord_def inputFields_def getProp_def
        DIRECTION_LEFT_def DIRECTION_RIGHT_def DIRECTION_UP_def DIRECTION_DOWN_def
        DIRECTION_ACTION_def DIRECTION_CANCEL_def)

lemma waitState_frameRecord: "frameRecord (waitState c)"
  by (simp add: waitState_def frameRecord_def inputFields_def getProp_def)

lemma holdFrames_records: "list_all frameRecord (holdFrames d n c)"
  by (induction n arbitrary: c) (simp_all add: holdState_frameRecord)

lemma waitFrames_records: "list_all frameRecord (waitFrames n c)"
  by (induction n arbitrary: c) (simp_all add: waitState_frameRecord)

lemma callFrames_records: "list_all frameRecord (callFrames x c)"
  by (cases x) (simp_all add: holdFrames_records waitFrames_records)

lemma callsFrames_records: "list_all frameRecord (callsFrames cs c)"
  by (induction cs arbitrary: c) (simp_all add: callFrames_records)

lemma hold_step:
  assumes "b < length st"
  shows "length (hold d n b st) = length st"
    and "deref (hold d n b st) b = deref st b @ holdFrames d (nat n) (currentFrame (st ! b))"
    and "currentFrame (hold d n b st ! b) = currentFrame (st ! b) + nat n"
  using assms by (simp_all add: hold_def deref_def)

lemma wait_step:
  assumes "b < length st"
  shows "length (wait n b st) = length st"
    and "deref (wait n b st) b = deref st b @ waitFrames (nat n) (currentFrame (st ! b))"
    and "currentFrame (wait n b st ! b) = currentFrame (st ! b) + nat n"
  using assms by (simp_all add: wait_def deref_def)

lemma call_step:
  assumes "b < length st"
  shows "length (call x b st) = length st \<and>
         deref (call x b st) b = deref st b @ callFrames x (currentFrame (st ! b)) \<and>
         currentFrame (call x b st ! b) = currentFrame (st ! b) + callCount x"
  using hold_step [OF assms] wait_step [OF assms]
  by (cases x)
     (simp_all add: builder_left_def builder_right_def builder_up_def builder_down_def
        builder_action_def builder_cancel_def)

lemma calls_appends:
  "b < length st \<Longrightarrow>
   deref (calls cs b st) b = deref st b @ callsFrames cs (currentFrame (st ! b))"
proof (induction cs arbitrary: st)
  case Nil
  then show ?case by simp
next
  case (Cons x cs)
  from call_step [OF Cons.prems, of x]
  have l: "b < length (call x b st)"
    and d: "deref (call x b st) b = deref st b @ callFrames x (currentFrame (st ! b))"
    and c: "currentFrame (call x b st ! b) = currentFrame (st ! b) + callCount x"
    using Cons.prems by simp_all
  from Cons.IH [OF l] d c show ?case by simp
qed

lemma sequence_valid:
  "fst (sequence st) < length (snd (sequence st)) \<and>
   deref (snd (sequence st)) (build (fst (sequence st))) = [] \<and>
   currentFrame (snd (sequence st) ! fst (sequence st)) = 0"
  by (simp add: sequence_def deref_def build_def)

text \<open>
  Claim C8, as the code has it. \<open>build\<close> returns the builder's own array, not a
  copy. Builder calls made after \<open>build()\<close> push onto that array: what is read
  through the returned reference afterwards is what was read before followed by exactly
  the records the later calls push, as many as the calls ask for (\<open>hold\<close> and
  \<open>wait\<close> push the given number of records, none for a negative number; a
  convenience method pushes \<open>frames || 1\<close>), each a frame record, numbered on from
  the builder's counter. So the earlier records stay in place and the array grows. Calls
  on one builder leave the arrays of the others alone.
\<close>

theorem C8_build_is_live:
  "(b < length st \<longrightarrow>
      deref (calls cs b st) (build b) =
        deref st (build b) @ callsFrames cs (currentFrame (st ! b))) \<and>
   length (callsFrames cs c) = sum_list (map callCount cs) \<and>
   map frameField (callsFrames cs c) =
     map (\<lambda>i. Num (int i)) [c ..< c + sum_list (map callCount cs)] \<and>
   list_all frameRecord (callsFrames cs c) \<and>
   (\<exists>ys. deref (calls cs b st) (build b) = deref st (build b) @ ys) \<and>
   (b' \<noteq> b \<longrightarrow> deref (calls cs b st) (build b') = deref st (build b'))"
  using calls_appends [of b st cs] calls_deref [of cs b st "build b"]
    calls_deref [of cs b st "build b'"]
  by (auto simp: build_def callsFrames_length callsFrames_numbered callsFrames_records)

lemma twoBuilders_eq:
  "twoBuilders =
     [\<lparr>seq = [holdState 0 0, holdState 0 1], currentFrame = 2\<rparr>, \<lparr>seq = [], currentFrame = 0\<rparr>]"
  by (simp add: twoBuilders_def sequence_def builder_left_def framesOrOne_def hold_def
        DIRECTION_LEFT_def numeral_2_eq_2)

theorem C8_build_is_live_witness:
  "(0 :: nat) < length twoBuilders \<and> (1 :: nat) \<noteq> 0 \<and>
   deref twoBuilders (build 0) = [holdState 0 0, holdState 0 1] \<and>
   deref (calls [CallAction None, Wait 1] 0 twoBuilders) (build 0) =
     [holdState 0 0, holdState 0 1] @ [holdState 4 2, waitState 3] \<and>
   deref (calls [CallAction None, Wait 1] 0 twoBuilders) (build 1) = deref twoBuilders (build 1)"
proof -
  have a: "(0 :: nat) < length twoBuilders" by (simp add: twoBuilders_eq)
  have d: "deref twoBuilders (build 0) = [holdState 0 0, holdState 0 1]"
    by (simp add: twoBuilders_eq deref_def build_def)
  have c: "currentFrame (twoBuilders ! 0) = 2" by (simp add: twoBuilders_eq)
  have f: "callsFrames [CallAction None, Wait 1] 2 = [holdState 4 2, waitState 3]"
    by (simp add: framesOrOne_def DIRECTION_ACTION_def numeral_3_eq_3)
  note inst = C8_build_is_live [of 0 twoBuilders "[CallAction None, Wait 1]" 2 1]
  from inst a have "deref (calls [CallAction None, Wait 1] 0 twoBuilders) (build 0) =
      deref twoBuilders (build 0) @
        callsFrames [CallAction None, Wait 1] (currentFrame (twoBuilders ! 0))"
    by blast
  then have e: "deref (calls [CallAction None, Wait 1] 0 twoBuilders) (build 0) =
      [holdState 0 0, holdState 0 1] @ [holdState 4 2, waitState 3]"
    by (simp only: d c f)
  from inst have i: "deref (calls [CallAction None, Wait 1] 0 twoBuilders) (build 1) =
      deref twoBuilders (build 1)"
    by simp
  from a d e i show ?thesis by simp
qed

text \<open>
  Claim C8 as stated fails: the array returned by \<open>build()\<close> on a fresh builder is
  empty, and after a later \<open>left()\<close> on the builder the same array holds one
  record.
\<close>

theorem C8_counterexample:
  "deref (snd (sequence [])) (build (fst (sequence []))) = [] \<and>
   deref (calls [CallLeft None] (fst (sequence [])) (snd (sequence [])))
     (build (fst (sequence []))) =
     [[(''frame'', Num 0), (''left'', Bool True), (''right'', Bool False), (''up'', Bool False),
       (''down'', Bool False), (''action'', Bool False), (''cancel'', Bool False)]]"
  by (simp add: sequence_def build_def deref_def builder_left_def framesOrOne_def hold_def
        holdState_def DIRECTION_LEFT_def DIRECTION_RIGHT_def DIRECTION_UP_def
        DIRECTION_DOWN_def DIRECTION_ACTION_def DIRECTION_CANCEL_def Let_def)

section \<open>Playback exhaustion\<close>

lemma hookedTick_plays:
  assumes "isPlaying s" "\<not> isRecording s" "playbackIndex s < length (recording s)"
  shows "hookedTick h s =
           (setInputState (recording s ! playbackIndex s) (originalTick h s))
             \<lparr>playbackIndex := playbackIndex s + 1\<rparr>"
  using assms by (simp add: hookedTick_def playbackFrame_def Let_def)

lemma setInputState_ev_dispatched:
  "setInputState_ev v s =
     s\<lparr>dispatched := dispatched s @ map KeyUp KEYS @ map KeyDown (wantedKeys_ev v)\<rparr>"
  by (simp add: setInputState_ev_def Let_def releaseAllKeys_ev_eq pressKey_ev_def
        wantedKeys_ev_def)

lemma hookedTick_ev_plays:
  assumes "isPlaying_ev s" "\<not> isRecording_ev s" "playbackIndex_ev s < length (recording_ev s)"
  shows "dispatched (hookedTick_ev h s) =
           dispatched s @ map KeyUp KEYS @
             map KeyDown (wantedKeys_ev (recording_ev s ! playbackIndex_ev s))"
  using assms
  by (simp add: hookedTick_ev_def playbackFrame_ev_def Let_def setInputState_ev_dispatched)

lemma wantedKeys_ev_KEYS: "set (wantedKeys_ev v) \<subseteq> set KEYS"
  by (auto simp: wantedKeys_ev_def KEYS_def)

lemma heldAfter_released:
  assumes "k \<in> set ks"
  shows "\<not> heldAfter (events @ map KeyUp ks) k"
proof -
  let ?f = "filter (\<lambda>e. eventKey e = k)"
  have all: "\<forall>e \<in> set (?f (map KeyUp ks)). e = KeyUp k" by auto
  from assms have "KeyUp k \<in> set (?f (map KeyUp ks))" by auto
  then have ne: "?f (map KeyUp ks) \<noteq> []" by (metis empty_iff empty_set)
  then have "last (?f (map KeyUp ks)) \<in> set (?f (map KeyUp ks))" by (rule last_in_set)
  with all have l: "last (?f (map KeyUp ks)) = KeyUp k" by blast
  have "?f (events @ map KeyUp ks) = ?f events @ ?f (map KeyUp ks)" by simp
  with ne l have "?f (events @ map KeyUp ks) \<noteq> [] \<and>
      last (?f (events @ map KeyUp ks)) = KeyUp k" by simp
  then show ?thesis by (auto simp: heldAfter_def split: list.splits)
qed

lemma heldAfter_untouched:
  assumes "k \<notin> eventKey ` set evs"
  shows "heldAfter (events @ evs) k = heldAfter events k"
proof -
  from assms have "filter (\<lambda>e. eventKey e = k) evs = []" by (auto simp: filter_empty_conv)
  then show ?thesis by (simp add: heldAfter_def)
qed

lemma hookedTick_ev_events:
  "\<exists>evs. dispatched (hookedTick_ev h s) = dispatched s @ evs \<and>
          eventKey ` set evs \<subseteq> set KEYS"
proof -
  have up: "eventKey ` set (map KeyUp KEYS) \<subseteq> set KEYS" by auto
  have down: "eventKey ` set (map KeyDown (wantedKeys_ev v)) \<subseteq> set KEYS" for v
    using wantedKeys_ev_KEYS [of v] by auto
  let ?s1 = "s\<lparr>inputManager_ev := map_option h (inputManager_ev s)\<rparr>"
  let ?s2 = "if isRecording_ev ?s1 then recordFrame_ev ?s1 else ?s1"
  have d2: "dispatched ?s2 = dispatched s"
    by (simp add: recordFrame_ev_def Let_def split: option.splits)
  have step: "hookedTick_ev h s = (if isPlaying_ev ?s2 then snd (playbackFrame_ev ?s2) else ?s2)"
    by (simp add: hookedTick_ev_def Let_def)
  consider (idle) "\<not> isPlaying_ev ?s2"
    | (stop) "isPlaying_ev ?s2" "playbackIndex_ev ?s2 \<ge> length (recording_ev ?s2)"
    | (play) "isPlaying_ev ?s2" "playbackIndex_ev ?s2 < length (recording_ev ?s2)"
    by linarith
  then show ?thesis
  proof cases
    case idle
    with step d2 have "dispatched (hookedTick_ev h s) = dispatched s @ []" by simp
    then show ?thesis by (intro exI [of _ "[]"]) simp
  next
    case stop
    with step d2 have "dispatched (hookedTick_ev h s) = dispatched s @ map KeyUp KEYS"
      by (simp add: playbackFrame_ev_def stopPlayback_ev_def releaseAllKeys_ev_eq)
    with up show ?thesis by blast
  next
    case play
    let ?v = "recording_ev ?s2 ! playbackIndex_ev ?s2"
    from play step d2 have "dispatched (hookedTick_ev h s) =
        dispatched s @ (map KeyUp KEYS @ map KeyDown (wantedKeys_ev ?v))"
      by (simp add: playbackFrame_ev_def Let_def setInputState_ev_dispatched)
    moreover have "eventKey ` set (map KeyUp KEYS @ map KeyDown (wantedKeys_ev ?v)) \<subseteq> set KEYS"
      using up down [of ?v] by (simp only: set_append image_Un Un_subset_iff)
    ultimately show ?thesis by blast
  qed
qed

lemma ticks_ev_events:
  "\<exists>evs. dispatched (ticks_ev hs s) = dispatched s @ evs \<and> eventKey ` set evs \<subseteq> set KEYS"
proof (induction hs arbitrary: s)
  case Nil
  show ?case by (intro exI [of _ "[]"]) simp
next
  case (Cons h hs)
  from hookedTick_ev_events [of h s] obtain m1
    where m1: "dispatched (hookedTick_ev h s) = dispatched s @ m1" "eventKey ` set m1 \<subseteq> set KEYS"
    by blast
  from Cons [of "hookedTick_ev h s"] obtain m2
    where m2: "dispatched (ticks_ev hs (hookedTick_ev h s)) = dispatched (hookedTick_ev h s) @ m2"
      "eventKey ` set m2 \<subseteq> set KEYS"
    by blast
  from m1 m2 have "dispatched (ticks_ev (h # hs) s) = dispatched s @ (m1 @ m2)" by simp
  moreover from m1 m2 have "eventKey ` set (m1 @ m2) \<subseteq> set KEYS" by auto
  ultimately show ?case by blast
qed

lemma startPlayback_ev_dispatched:
  "dispatched (snd (startPlayback_ev parse arg s)) = dispatched s"
  by (simp add: startPlayback_ev_def Let_def hookGameTick_ev_def
        split: seq_arg.splits parse_result.splits)

lemma playback_ev_untouched:
  assumes "k \<notin> set KEYS"
  shows "heldAfter (dispatched (ticks_ev hs (snd (startPlayback_ev parse arg s)))) k =
           heldAfter (dispatched s) k"
proof -
  from ticks_ev_events [of hs "snd (startPlayback_ev parse arg s)"] obtain evs
    where m: "dispatched (ticks_ev hs (snd (startPlayback_ev parse arg s))) = dispatched s @ evs"
      "eventKey ` set evs \<subseteq> set KEYS"
    by (auto simp: startPlayback_ev_dispatched)
  with assms have "k \<notin> eventKey ` set evs" by blast
  with m(1) show ?thesis by (simp add: heldAfter_untouched)
qed

lemma keyPressed_playbackIndex [simp]: "keyPressed (s\<lparr>playbackIndex := n\<rparr>) k = keyPressed s k"
  by (simp add: keyPressed_def)

lemma last_tick:
  assumes "S \<noteq> []" "length hs = length S"
  shows "hs = butlast hs @ [last hs]" "length (butlast hs) = length S - 1"
    "length S - 1 < length S" "S ! (length S - 1) = last S"
proof -
  from assms have "hs \<noteq> []" by auto
  then show "hs = butlast hs @ [last hs]" by simp
  from assms show "length (butlast hs) = length S - 1" by simp
  from assms show "length S - 1 < length S" by (cases S) simp_all
  from assms show "S ! (length S - 1) = last S" by (simp add: last_conv_nth)
qed

text \<open>
  Claim C1, as the code has it. \<open>playbackFrame\<close> applies one record per tick and
  notices exhaustion only on the tick after the last record. After a successful
  \<open>startPlayback(S)\<close> with \<open>S\<close> non-empty: \<open>length S - 1\<close> ticks leave
  the session playing with cursor \<open>length S - 1\<close>; \<open>length S\<close> ticks leave it
  still playing with cursor \<open>length S\<close>, the last of them having applied the last
  record after the game's own tick, so that its input is still applied; one tick more
  leaves the session idle (neither playing nor recording) with cursor 0 and the keys
  released. In part\_000 the keys pressed after \<open>length S\<close> ticks are exactly those
  the last record selects, and after the next tick no key of the bound handler is pressed.
  In the event-dispatch module the tick that applies the last record dispatches key-ups
  for \<open>KEYS\<close> and then the record's key-downs, and the next tick dispatches key-ups
  for \<open>KEYS\<close>: none of those seven keys, the only ones playback presses, is left
  held, while a key outside \<open>KEYS\<close> is held afterwards exactly if it was held
  before playback started.
\<close>

theorem C1_playback_exhaustion:
  assumes "S \<noteq> []" and "length hs = length S" and "length gs = length S"
  shows "(let s0 = snd (startPlayback parse (ArrayArg S) s);
              s1 = ticks (butlast hs) s0;
              s2 = ticks hs s0;
              s3 = ticks (hs @ [h]) s0
          in isPlaying s1 \<and> playbackIndex s1 = length S - 1 \<and>
             isPlaying s2 \<and> playbackIndex s2 = length S \<and>
             s2 = (setInputState (last S) (originalTick (last hs) s1))
                    \<lparr>playbackIndex := length S\<rparr> \<and>
             (\<forall>kh. keyboardHandler (originalTick (last hs) s1) = Some kh \<longrightarrow>
                (\<forall>k. keyPressed s2 k \<longleftrightarrow> k \<in> set (wantedKeys kh (last S)))) \<and>
             \<not> isPlaying s3 \<and> \<not> isRecording s3 \<and> playbackIndex s3 = 0 \<and>
             (\<forall>k. \<not> keyPressed s3 k)) \<and>
         (let e0 = snd (startPlayback_ev parse (ArrayArg S) e);
              e1 = ticks_ev (butlast gs) e0;
              e2 = ticks_ev gs e0;
              e3 = ticks_ev (gs @ [g]) e0
          in isPlaying_ev e1 \<and> playbackIndex_ev e1 = length S - 1 \<and>
             isPlaying_ev e2 \<and> playbackIndex_ev e2 = length S \<and>
             dispatched e2 =
               dispatched e1 @ map KeyUp KEYS @ map KeyDown (wantedKeys_ev (last S)) \<and>
             \<not> isPlaying_ev e3 \<and> \<not> isRecording_ev e3 \<and> playbackIndex_ev e3 = 0 \<and>
             dispatched e3 = dispatched e2 @ map KeyUp KEYS \<and>
             (\<forall>k \<in> set KEYS. \<not> heldAfter (dispatched e3) k) \<and>
             (\<forall>k. k \<notin> set KEYS \<longrightarrow>
                heldAfter (dispatched e3) k = heldAfter (dispatched e) k))"
proof -
  let ?s0 = "snd (startPlayback parse (ArrayArg S) s)"
  let ?s1 = "ticks (butlast hs) ?s0"
  let ?s2 = "ticks hs ?s0"
  let ?s3 = "ticks (hs @ [h]) ?s0"
  let ?e0 = "snd (startPlayback_ev parse (ArrayArg S) e)"
  let ?e1 = "ticks_ev (butlast gs) ?e0"
  let ?e2 = "ticks_ev gs ?e0"
  let ?e3 = "ticks_ev (gs @ [g]) ?e0"
  note lh = last_tick [OF assms(1,2)]
  note lg = last_tick [OF assms(1,3)]
  have a1: "isPlaying ?s1 \<and> \<not> isRecording ?s1 \<and> playbackIndex ?s1 = length S - 1 \<and>
            recording ?s1 = S"
    using playback_run [OF assms(1), of "butlast hs" parse s] assms(2) by simp
  have a2: "isPlaying ?s2 \<and> \<not> isRecording ?s2 \<and> playbackIndex ?s2 = length S \<and>
            recording ?s2 = S"
    using playback_run [OF assms(1), of hs parse s] assms(2) by simp
  have "?s2 = hookedTick (last hs) ?s1"
    by (subst lh(1)) (simp only: ticks_snoc)
  also have "\<dots> = (setInputState (S ! (length S - 1)) (originalTick (last hs) ?s1))
                     \<lparr>playbackIndex := length S - 1 + 1\<rparr>"
    using hookedTick_plays [of ?s1 "last hs"] a1 lh(3) by simp
  finally have a3: "?s2 = (setInputState (last S) (originalTick (last hs) ?s1))
                     \<lparr>playbackIndex := length S\<rparr>"
    using lh(3,4) by simp
  have a4: "keyPressed ?s2 k \<longleftrightarrow> k \<in> set (wantedKeys kh (last S))"
    if "keyboardHandler (originalTick (last hs) ?s1) = Some kh" for kh k
    by (subst a3) (simp add: keyPressed_setInputState [OF that])
  have a5: "\<not> isPlaying ?s3 \<and> \<not> isRecording ?s3 \<and> playbackIndex ?s3 = 0 \<and>
            (\<forall>k. \<not> keyPressed ?s3 k)"
    using a2 hookedTick_exhausted [of "ticks hs ?s0" h] by (simp add: ticks_snoc)
  have b1: "isPlaying_ev ?e1 \<and> \<not> isRecording_ev ?e1 \<and>
            playbackIndex_ev ?e1 = length S - 1 \<and> recording_ev ?e1 = S"
    using playback_ev_run [OF assms(1), of "butlast gs" parse e] assms(3) by simp
  have b2: "isPlaying_ev ?e2 \<and> \<not> isRecording_ev ?e2 \<and>
            playbackIndex_ev ?e2 = length S \<and> recording_ev ?e2 = S"
    using playback_ev_run [OF assms(1), of gs parse e] assms(3) by simp
  have "?e2 = hookedTick_ev (last gs) ?e1"
    by (subst lg(1)) (simp only: ticks_ev_snoc)
  then have b3: "dispatched ?e2 =
      dispatched ?e1 @ map KeyUp KEYS @ map KeyDown (wantedKeys_ev (last S))"
    using hookedTick_ev_plays [of ?e1 "last gs"] b1 lg(3,4) by simp
  have b4: "\<not> isPlaying_ev ?e3 \<and> \<not> isRecording_ev ?e3 \<and> playbackIndex_ev ?e3 = 0 \<and>
            dispatched ?e3 = dispatched ?e2 @ map KeyUp KEYS"
    using b2 hookedTick_ev_exhausted [of "ticks_ev gs ?e0" g] by (simp add: ticks_ev_snoc)
  have b5: "\<forall>k \<in> set KEYS. \<not> heldAfter (dispatched ?e3) k"
    using b4 heldAfter_released [of _ KEYS "dispatched ?e2"] by simp
  have b6: "\<forall>k. k \<notin> set KEYS \<longrightarrow> heldAfter (dispatched ?e3) k = heldAfter (dispatched e) k"
    using playback_ev_untouched [of _ "gs @ [g]" parse "ArrayArg S" e] by blast
  show ?thesis
    unfolding Let_def
    using a1 a2 a3 a4 a5 b1 b2 b3 b4 b5 b6 by blast
qed

text \<open>Evaluating part\_000 on concrete sessions.\<close>

lemmas tas_eval =
  startPlayback_def hookGameTick_def heldTAS_def readyTAS_def initialTAS_def Let_def
  hookedTick_def originalTick_def playbackFrame_def setInputState_def releaseAllKeys_def
  stopPlayback_def getProp_def TAS_left_def TAS_right_def TAS_up_def TAS_down_def
  TAS_action_def TAS_cancel_def pressDirection_def fallbackKeys_def DIRECTION_LEFT_def
  pressKey_def keyPressed_def waitState_def leftFrame_def

lemma heldTAS_holds: "keyPressed heldTAS 65"
  by (simp add: tas_eval)

lemma heldTAS_two_ticks:
  "keyPressed (ticks [(id, id), (id, id)]
     (snd (startPlayback (\<lambda>t. Throws) (ArrayArg [waitState 0, leftFrame]) heldTAS))) 37 \<and>
   \<not> keyPressed (ticks [(id, id), (id, id)]
     (snd (startPlayback (\<lambda>t. Throws) (ArrayArg [waitState 0, leftFrame]) heldTAS))) 65"
  by (simp add: tas_eval)

lemma heldTAS_ev_holds: "heldAfter (dispatched heldTAS_ev) 65"
  by (simp add: heldTAS_ev_def pressKey_ev_def readyTAS_ev_def initialTAS_ev_def heldAfter_def)

lemma KEYS_members: "37 \<in> set KEYS \<and> 65 \<notin> set KEYS"
  by (simp add: KEYS_def KEYS_LEFT_def KEYS_RIGHT_def KEYS_UP_def KEYS_DOWN_def KEYS_SPACE_def
        KEYS_ENTER_def KEYS_BACKSPACE_def)

theorem C1_playback_exhaustion_witness:
  "[waitState 0, leftFrame] \<noteq> [] \<and>
   length [(id :: input_manager \<Rightarrow> input_manager, id :: keyboard_handler \<Rightarrow> keyboard_handler),
           (id, id)] = length [waitState 0, leftFrame] \<and>
   length [id :: input_manager \<Rightarrow> input_manager, id] = length [waitState 0, leftFrame] \<and>
   keyPressed heldTAS 65 \<and>
   isPlaying (ticks [(id, id), (id, id)]
     (snd (startPlayback (\<lambda>t. Throws) (ArrayArg [waitState 0, leftFrame]) heldTAS))) \<and>
   keyPressed (ticks [(id, id), (id, id)]
     (snd (startPlayback (\<lambda>t. Throws) (ArrayArg [waitState 0, leftFrame]) heldTAS))) 37 \<and>
   \<not> isPlaying (ticks ([(id, id), (id, id)] @ [(id, id)])
     (snd (startPlayback (\<lambda>t. Throws) (ArrayArg [waitState 0, leftFrame]) heldTAS))) \<and>
   \<not> keyPressed (ticks ([(id, id), (id, id)] @ [(id, id)])
     (snd (startPlayback (\<lambda>t. Throws) (ArrayArg [waitState 0, leftFrame]) heldTAS))) 37 \<and>
   heldAfter (dispatched heldTAS_ev) 65 \<and>
   \<not> isPlaying_ev (ticks_ev ([id, id] @ [id])
     (snd (startPlayback_ev (\<lambda>t. Throws) (ArrayArg [waitState 0, leftFrame]) heldTAS_ev))) \<and>
   \<not> heldAfter (dispatched (ticks_ev ([id, id] @ [id])
     (snd (startPlayback_ev (\<lambda>t. Throws) (ArrayArg [waitState 0, leftFrame]) heldTAS_ev)))) 37 \<and>
   heldAfter (dispatched (ticks_ev ([id, id] @ [id])
     (snd (startPlayback_ev (\<lambda>t. Throws) (ArrayArg [waitState 0, leftFrame]) heldTAS_ev)))) 65"
proof -
  have h: "[waitState 0, leftFrame] \<noteq> []"
    "length [(id :: input_manager \<Rightarrow> input_manager, id :: keyboard_handler \<Rightarrow> keyboard_handler),
           (id, id)] = length [waitState 0, leftFrame]"
    "length [id :: input_manager \<Rightarrow> input_manager, id] = length [waitState 0, leftFrame]"
    by simp_all
  note inst = C1_playback_exhaustion [OF h, of "\<lambda>t. Throws" heldTAS "(id, id)" heldTAS_ev id,
      unfolded Let_def]
  from inst KEYS_members have
    "\<not> heldAfter (dispatched (ticks_ev ([id, id] @ [id])
       (snd (startPlayback_ev (\<lambda>t. Throws) (ArrayArg [waitState 0, leftFrame]) heldTAS_ev)))) 37"
    and "heldAfter (dispatched (ticks_ev ([id, id] @ [id])
       (snd (startPlayback_ev (\<lambda>t. Throws) (ArrayArg [waitState 0, leftFrame]) heldTAS_ev)))) 65 =
       heldAfter (dispatched heldTAS_ev) 65"
    by blast+
  with inst h heldTAS_holds heldTAS_two_ticks heldTAS_ev_holds show ?thesis by blast
qed

text \<open>
  Claim C1 as stated fails: after \<open>startPlayback\<close> of a one-record sequence and
  exactly one tick, the session is still playing, the cursor is 1 and the record's key
  (left arrow, 37) is still pressed.
\<close>

theorem C1_counterexample:
  "isPlaying (ticks [(id, id)] (snd (startPlayback (\<lambda>t. Throws) (ArrayArg [leftFrame])
      (initialTAS\<lparr>keyboardHandler := Some \<lparr>Ob = Map.empty, Ea = []\<rparr>\<rparr>)))) \<and>
   playbackIndex (ticks [(id, id)] (snd (startPlayback (\<lambda>t. Throws) (ArrayArg [leftFrame])
      (initialTAS\<lparr>keyboardHandler := Some \<lparr>Ob = Map.empty, Ea = []\<rparr>\<rparr>)))) = 1 \<and>
   keyPressed (ticks [(id, id)] (snd (startPlayback (\<lambda>t. Throws) (ArrayArg [leftFrame])
      (initialTAS\<lparr>keyboardHandler := Some \<lparr>Ob = Map.empty, Ea = []\<rparr>\<rparr>)))) 37"
  by (simp add: startPlayback_def hookGameTick_def initialTAS_def Let_def leftFrame_def
        hookedTick_def originalTick_def playbackFrame_def setInputState_def releaseAllKeys_def
        getProp_def TAS_left_def pressDirection_def fallbackKeys_def DIRECTION_LEFT_def
        pressKey_def keyPressed_def)

end
